theory Spec2Isabelle
  imports Main "HOL-Library.Multiset" "HOL-Library.Product_Lexorder" "HOL-Library.Option_ord"
begin

section \<open>TaskFlow backend: the route handlers over an explicit store\<close>

text \<open>
  Every route handler of the backend runs a few parameterised SQL statements against a
  PostgreSQL store and shapes a JSON reply. The store is modelled as a record of tables,
  each table a list of rows in insertion order; a handler is a function from the store
  (and the request) to the reply and the store afterwards.

  Conventions of the embedding:
  \<^item> ids are natural numbers, drawn from one sequence per table;
  \<^item> a point in time (\<open>new Date()\<close>, \<open>CURRENT_TIMESTAMP\<close>) is an integer, the
    milliseconds since the epoch, handed to the handler as \<open>now\<close>;
  \<^item> a calendar date (the \<open>week_start\<close> column) is an integer, the days since the epoch;
  \<^item> a request field that may be missing is an \<open>option\<close>: \<open>None\<close> stands for
    \<open>undefined\<close> and \<open>null\<close>, which the database driver both sends as SQL NULL;
    JSON numbers are integers;
  \<^item> a string is the list of the bytes of its UTF-8 encoding, as the request carries it
    and the database stores it, so that equality of strings is equality of byte lists;
  \<^item> a nullable column is an \<open>option\<close>, \<open>None\<close> being SQL NULL;
  \<^item> the table definitions are not among the sources: a column that an \<open>INSERT\<close>
    does not name takes the default the handlers rely on (\<open>archived\<close> false, the
    status of a family task \<open>pending\<close>, the time stamps the current time), and every
    column a handler can set to NULL is nullable. No property below depends on a default.
\<close>

subsection \<open>Rows and the store\<close>

record user_row =
  u_id :: nat
  u_username :: string
  u_email :: string
  u_password_hash :: string

record task_row =
  t_id :: nat
  t_user_id :: nat
  t_title :: string
  t_description :: "string option"
  t_priority :: "int option"
  t_status :: "string option"
  t_assigned_to :: "nat option"
  t_week_start :: int
  t_archived :: bool
  t_archived_at :: "int option"
  t_completed_at :: "int option"
  t_created_at :: int
  t_updated_at :: int

record family_row =
  f_id :: nat
  f_name :: string
  f_created_by :: nat
  f_invitation_code :: string

record member_row =
  m_id :: nat
  m_family_id :: nat
  m_user_id :: nat

record family_task_row =
  ft_id :: nat
  ft_family_id :: nat
  ft_created_by :: nat
  ft_title :: "string option"
  ft_description :: "string option"
  ft_priority :: "int option"
  ft_status :: "string option"
  ft_assigned_to :: "nat option"
  ft_week_start :: int
  ft_completed_at :: "int option"
  ft_created_at :: int
  ft_updated_at :: int

record db =
  users :: "user_row list"
  tasks :: "task_row list"
  families :: "family_row list"
  family_members :: "member_row list"
  family_tasks :: "family_task_row list"
  task_seq :: nat
  family_seq :: nat
  member_seq :: nat
  family_task_seq :: nat

text \<open>
  How a handler fails: either it answers itself with \<open>res.status(code).json({error: msg})\<close>,
  or it throws \<open>new Error(msg)\<close>, which \<open>asyncHandler\<close> passes on to the error-handling
  middleware.
\<close>

datatype failure = Reject nat string | Raise string

subsection \<open>JavaScript helpers used by the handlers\<close>

text \<open>
  \<open>String.prototype.trim\<close> removes white space and line terminators from both ends:
  the code points U+0009 to U+000D, U+0020, U+00A0, U+1680, U+2000 to U+200A, U+2028,
  U+2029, U+202F, U+205F, U+3000 and U+FEFF, here by their UTF-8 encodings. \<open>strip\<close>
  removes from the front of a string, as long as there is one, an occurrence of one of
  the given byte sequences.
\<close>

definition white_space :: "string list" where
  "white_space =
     [[CHR 0x09], [CHR 0x0A], [CHR 0x0B], [CHR 0x0C], [CHR 0x0D], [CHR 0x20],
      [CHR 0xC2, CHR 0xA0],
      [CHR 0xE1, CHR 0x9A, CHR 0x80],
      [CHR 0xE2, CHR 0x80, CHR 0x80], [CHR 0xE2, CHR 0x80, CHR 0x81],
      [CHR 0xE2, CHR 0x80, CHR 0x82], [CHR 0xE2, CHR 0x80, CHR 0x83],
      [CHR 0xE2, CHR 0x80, CHR 0x84], [CHR 0xE2, CHR 0x80, CHR 0x85],
      [CHR 0xE2, CHR 0x80, CHR 0x86], [CHR 0xE2, CHR 0x80, CHR 0x87],
      [CHR 0xE2, CHR 0x80, CHR 0x88], [CHR 0xE2, CHR 0x80, CHR 0x89],
      [CHR 0xE2, CHR 0x80, CHR 0x8A],
      [CHR 0xE2, CHR 0x80, CHR 0xA8], [CHR 0xE2, CHR 0x80, CHR 0xA9],
      [CHR 0xE2, CHR 0x80, CHR 0xAF],
      [CHR 0xE2, CHR 0x81, CHR 0x9F],
      [CHR 0xE3, CHR 0x80, CHR 0x80],
      [CHR 0xEF, CHR 0xBB, CHR 0xBF]]"

fun strip :: "string list \<Rightarrow> string \<Rightarrow> string" where
  "strip ws [] = []"
| "strip ws (c # s) =
     (case find (\<lambda>w. w \<noteq> [] \<and> take (length w) (c # s) = w) ws of
        None \<Rightarrow> c # s
      | Some w \<Rightarrow> strip ws (drop (length w - 1) s))"

definition trim :: "string \<Rightarrow> string" where
  "trim s = rev (strip (map rev white_space) (rev (strip white_space s)))"

text \<open>
  \<open>String.prototype.toUpperCase\<close> applies the case mapping of the Unicode standard,
  which is a table of the runtime and not of this repository. The handler that calls
  it takes it as the parameter \<open>toUpperCase\<close>.
\<close>

text \<open>Truthiness of an optional number and of an optional string.\<close>

fun truthy_num :: "int option \<Rightarrow> bool" where
  "truthy_num None = False"
| "truthy_num (Some n) = (n \<noteq> 0)"

fun truthy_nat :: "nat option \<Rightarrow> bool" where
  "truthy_nat None = False"
| "truthy_nat (Some n) = (n \<noteq> 0)"

fun truthy_str :: "string option \<Rightarrow> bool" where
  "truthy_str None = False"
| "truthy_str (Some s) = (s \<noteq> [])"

text \<open>\<open>x?.trim()\<close>: undefined when \<open>x\<close> is missing.\<close>

definition opt_trim :: "string option \<Rightarrow> string option" where
  "opt_trim d = map_option trim d"

text \<open>\<open>date.toISOString().split("T")[0]\<close>: the UTC calendar day of a point in time.\<close>

definition ms_per_day :: int where
  "ms_per_day = 24 * 60 * 60 * 1000"

definition iso_date :: "int \<Rightarrow> int" where
  "iso_date ms = ms div ms_per_day"

subsection \<open>Personal tasks (routes/tasks.js)\<close>

text \<open>
  The \<open>ORDER BY\<close> of both task listings:
  \<open>CASE WHEN status = 'pending' THEN 0 ELSE 1 END, priority DESC, created_at DESC\<close>.
  A NULL status is not \<open>'pending'\<close>, and PostgreSQL puts NULL first in a descending
  column. The three sort keys are compared lexicographically; a descending integer key is
  the negated integer, and \<open>None\<close> is below every \<open>Some\<close>.
\<close>

definition pending_rank :: "string option \<Rightarrow> nat" where
  "pending_rank s = (if s = Some ''pending'' then 0 else 1)"

definition order_key :: "string option \<Rightarrow> int option \<Rightarrow> int \<Rightarrow> nat \<times> int option \<times> int" where
  "order_key s p c = (pending_rank s, map_option uminus p, - c)"

definition task_key :: "task_row \<Rightarrow> nat \<times> int option \<times> int" where
  "task_key t = order_key (t_status t) (t_priority t) (t_created_at t)"

text \<open>\<open>GET /api/tasks\<close>.\<close>

definition get_tasks :: "db \<Rightarrow> nat \<Rightarrow> task_row list" where
  "get_tasks d uid =
     sort_key task_key (filter (\<lambda>t. t_user_id t = uid \<and> \<not> t_archived t) (tasks d))"

text \<open>
  The body of a personal-task request, after the \<open>validateTask\<close> middleware, which
  requires the title.
\<close>

record task_body =
  b_title :: string
  b_description :: "string option"
  b_priority :: "int option"
  b_status :: "string option"

text \<open>
  \<open>POST /api/tasks\<close>. \<open>weekStart\<close> is what \<open>getCurrentWeekStart()\<close> returned, as a
  point in time. The columns the statement does not name take their defaults:
  \<open>archived\<close> is false, \<open>archived_at\<close> is NULL, and both time stamps are the current time.
\<close>

definition post_task :: "int \<Rightarrow> int \<Rightarrow> nat \<Rightarrow> task_body \<Rightarrow> db \<Rightarrow> task_row \<times> db" where
  "post_task now weekStart uid b d =
     (let row = \<lparr> t_id = task_seq d,
                  t_user_id = uid,
                  t_title = trim (b_title b),
                  t_description =
                    (if truthy_str (opt_trim (b_description b)) then opt_trim (b_description b)
                     else None),
                  t_priority = (if truthy_num (b_priority b) then b_priority b else Some 1),
                  t_status = (if truthy_str (b_status b) then b_status b else Some ''pending''),
                  t_assigned_to = Some uid,
                  t_week_start = iso_date weekStart,
                  t_archived = False,
                  t_archived_at = None,
                  t_completed_at = (if b_status b = Some ''completed'' then Some now else None),
                  t_created_at = now,
                  t_updated_at = now \<rparr>
      in (row, d\<lparr> tasks := tasks d @ [row], task_seq := Suc (task_seq d) \<rparr>))"

text \<open>
  \<open>PUT /api/tasks/:id\<close>. Answers 404 when no task with that id belongs to the user;
  otherwise rewrites title, description, priority, status and the completion time of
  every row the \<open>WHERE\<close> clause selects and answers with the first of them.
\<close>

definition put_task_row :: "int \<Rightarrow> task_body \<Rightarrow> task_row \<Rightarrow> task_row" where
  "put_task_row now b t =
     t\<lparr> t_title := trim (b_title b),
        t_description := opt_trim (b_description b),
        t_priority := b_priority b,
        t_status := b_status b,
        t_completed_at := (if b_status b = Some ''completed'' then Some now else None),
        t_updated_at := now \<rparr>"

definition put_task :: "int \<Rightarrow> nat \<Rightarrow> nat \<Rightarrow> task_body \<Rightarrow> db \<Rightarrow> (failure + task_row option) \<times> db" where
  "put_task now uid tid b d =
     (if filter (\<lambda>t. t_id t = tid \<and> t_user_id t = uid) (tasks d) = []
      then (Inl (Reject 404 ''Task not found''), d)
      else
        (let sel = (\<lambda>t. t_id t = tid \<and> t_user_id t = uid);
             d' = d\<lparr> tasks := map (\<lambda>t. if sel t then put_task_row now b t else t) (tasks d) \<rparr>
         in (Inr (case filter sel (tasks d') of [] \<Rightarrow> None | r # _ \<Rightarrow> Some r), d')))"

text \<open>\<open>DELETE /api/tasks/:id\<close>.\<close>

definition delete_task :: "nat \<Rightarrow> nat \<Rightarrow> db \<Rightarrow> (failure + string) \<times> db" where
  "delete_task uid tid d =
     (let sel = (\<lambda>t. t_id t = tid \<and> t_user_id t = uid)
      in if filter sel (tasks d) = []
         then (Inl (Reject 404 ''Task not found''), d)
         else (Inr ''Task deleted successfully'',
               d\<lparr> tasks := filter (\<lambda>t. \<not> sel t) (tasks d) \<rparr>))"

text \<open>
  \<open>POST /api/tasks/archive\<close>. \<open>lastWeek\<close> is seven days before \<open>weekStart\<close>; the
  statement archives the user's unarchived tasks whose \<open>week_start\<close> is before the date
  of \<open>lastWeek\<close>, and the reply counts the rows it returned.
\<close>

definition archive_sel :: "int \<Rightarrow> nat \<Rightarrow> task_row \<Rightarrow> bool" where
  "archive_sel weekStart uid t =
     (t_user_id t = uid \<and> t_week_start t < iso_date (weekStart - 7 * 24 * 60 * 60 * 1000)
      \<and> \<not> t_archived t)"

definition archive_tasks :: "int \<Rightarrow> int \<Rightarrow> nat \<Rightarrow> db \<Rightarrow> nat \<times> db" where
  "archive_tasks now weekStart uid d =
     (length (filter (archive_sel weekStart uid) (tasks d)),
      d\<lparr> tasks := map (\<lambda>t. if archive_sel weekStart uid t
                           then t\<lparr> t_archived := True, t_archived_at := Some now \<rparr>
                           else t) (tasks d) \<rparr>)"

subsection \<open>Families (routes/family.js)\<close>

text \<open>
  Modelled from the spec: \<open>withTransaction\<close> of \<open>config/database.js\<close>, which is not
  among the sources. It runs the callback inside one database transaction: when the
  callback returns, its writes are committed; when it throws, they are rolled back and
  the error is thrown on.
\<close>

definition withTransaction :: "(db \<Rightarrow> (failure + 'a) \<times> db) \<Rightarrow> db \<Rightarrow> (failure + 'a) \<times> db" where
  "withTransaction body d =
     (case body d of
        (Inl e, d') \<Rightarrow> (Inl e, d)
      | (Inr r, d') \<Rightarrow> (Inr r, d'))"

definition insert_member :: "nat \<Rightarrow> nat \<Rightarrow> db \<Rightarrow> db" where
  "insert_member fid uid d =
     d\<lparr> family_members :=
          family_members d @ [\<lparr> m_id = member_seq d, m_family_id = fid, m_user_id = uid \<rparr>],
        member_seq := Suc (member_seq d) \<rparr>"

text \<open>
  \<open>POST /api/family/create\<close>, after the \<open>validateFamily\<close> middleware. \<open>code\<close> is what
  \<open>generateInvitationCode()\<close> returned.
\<close>

definition create_family_tx :: "string \<Rightarrow> nat \<Rightarrow> string \<Rightarrow> db \<Rightarrow> (failure + family_row) \<times> db" where
  "create_family_tx code uid name d =
     (if filter (\<lambda>m. m_user_id m = uid) (family_members d) \<noteq> []
      then (Inl (Raise ''You are already a member of a family''), d)
      else
        (let newFamily = \<lparr> f_id = family_seq d, f_name = trim name, f_created_by = uid,
                           f_invitation_code = code \<rparr>;
             d1 = d\<lparr> families := families d @ [newFamily], family_seq := Suc (family_seq d) \<rparr>
         in (Inr newFamily, insert_member (f_id newFamily) uid d1)))"

definition post_family_create :: "string \<Rightarrow> nat \<Rightarrow> string \<Rightarrow> db \<Rightarrow> (failure + family_row) \<times> db" where
  "post_family_create code uid name d = withTransaction (create_family_tx code uid name) d"

text \<open>
  \<open>POST /api/family/join\<close>. \<open>toUpperCase\<close> is the runtime's
  \<open>String.prototype.toUpperCase\<close>.
\<close>

definition join_family_tx ::
  "(string \<Rightarrow> string) \<Rightarrow> nat \<Rightarrow> string \<Rightarrow> db \<Rightarrow> (failure + family_row) \<times> db" where
  "join_family_tx toUpperCase uid invitationCode d =
     (if filter (\<lambda>m. m_user_id m = uid) (family_members d) \<noteq> []
      then (Inl (Raise ''You are already a member of a family''), d)
      else
        (case filter (\<lambda>f. f_invitation_code f = toUpperCase (trim invitationCode)) (families d) of
           [] \<Rightarrow> (Inl (Raise ''Invalid invitation code''), d)
         | family # _ \<Rightarrow> (Inr family, insert_member (f_id family) uid d)))"

definition post_family_join ::
  "(string \<Rightarrow> string) \<Rightarrow> nat \<Rightarrow> string option \<Rightarrow> db \<Rightarrow> (failure + family_row) \<times> db" where
  "post_family_join toUpperCase uid invitationCode d =
     (case invitationCode of
        None \<Rightarrow> (Inl (Reject 400 ''Invitation code is required''), d)
      | Some c \<Rightarrow>
          if c = [] \<or> length (trim c) = 0
          then (Inl (Reject 400 ''Invitation code is required''), d)
          else withTransaction (join_family_tx toUpperCase uid c) d)"

subsection \<open>Family tasks (routes/family.js)\<close>

definition family_task_key :: "family_task_row \<Rightarrow> nat \<times> int option \<times> int" where
  "family_task_key t = order_key (ft_status t) (ft_priority t) (ft_created_at t)"

text \<open>\<open>GET /api/family/tasks\<close>: each task with the user name of its assignee.\<close>

definition family_task_rows :: "db \<Rightarrow> nat \<Rightarrow> (family_task_row \<times> string) list" where
  "family_task_rows d uid =
     [(ft, u_username u).
        ft \<leftarrow> family_tasks d,
        u \<leftarrow> users d, ft_assigned_to ft = Some (u_id u),
        fm \<leftarrow> family_members d, ft_family_id ft = m_family_id fm,
        m_user_id fm = uid]"

definition get_family_tasks :: "db \<Rightarrow> nat \<Rightarrow> (family_task_row \<times> string) list" where
  "get_family_tasks d uid = sort_key (\<lambda>r. family_task_key (fst r)) (family_task_rows d uid)"

record family_task_body =
  fb_title :: "string option"
  fb_description :: "string option"
  fb_priority :: "int option"
  fb_status :: "string option"
  fb_assigned_to :: "nat option"

text \<open>The task with the given id and its assignee's user name, as the handlers reply it.\<close>

definition task_with_username :: "db \<Rightarrow> nat \<Rightarrow> (family_task_row \<times> string) option" where
  "task_with_username d tid =
     (case [(ft, u_username u).
              ft \<leftarrow> family_tasks d,
              u \<leftarrow> users d, ft_assigned_to ft = Some (u_id u),
              ft_id ft = tid] of
        [] \<Rightarrow> None
      | r # _ \<Rightarrow> Some r)"

text \<open>
  \<open>POST /api/family/tasks\<close>. The statement names neither status nor completion time:
  the new task starts with the column defaults, \<open>pending\<close> and NULL.
\<close>

definition new_family_task ::
  "int \<Rightarrow> int \<Rightarrow> nat \<Rightarrow> family_row \<Rightarrow> family_task_body \<Rightarrow> db \<Rightarrow> family_task_row" where
  "new_family_task now weekStart uid family b d =
     \<lparr> ft_id = family_task_seq d,
       ft_family_id = f_id family,
       ft_created_by = uid,
       ft_title = opt_trim (fb_title b),
       ft_description =
         (if truthy_str (opt_trim (fb_description b)) then opt_trim (fb_description b) else None),
       ft_priority = (if truthy_num (fb_priority b) then fb_priority b else Some 1),
       ft_status = Some ''pending'',
       ft_assigned_to = fb_assigned_to b,
       ft_week_start = iso_date weekStart,
       ft_completed_at = None,
       ft_created_at = now,
       ft_updated_at = now \<rparr>"

definition insert_family_task :: "family_task_row \<Rightarrow> db \<Rightarrow> db" where
  "insert_family_task row d =
     d\<lparr> family_tasks := family_tasks d @ [row], family_task_seq := Suc (family_task_seq d) \<rparr>"

definition requester_families :: "db \<Rightarrow> nat \<Rightarrow> family_row list" where
  "requester_families d uid =
     [f. f \<leftarrow> families d, fm \<leftarrow> family_members d, f_id f = m_family_id fm, m_user_id fm = uid]"

definition post_family_task ::
  "int \<Rightarrow> int \<Rightarrow> nat \<Rightarrow> family_task_body \<Rightarrow> db \<Rightarrow> (failure + (family_task_row \<times> string) option) \<times> db" where
  "post_family_task now weekStart uid b d =
     (if \<not> truthy_str (fb_title b) \<or> length (trim (case fb_title b of Some s \<Rightarrow> s | None \<Rightarrow> [])) = 0
      then (Inl (Reject 400 ''Task title is required''), d)
      else if \<not> truthy_nat (fb_assigned_to b)
      then (Inl (Reject 400 ''Assigned user is required''), d)
      else
        (case requester_families d uid of
           [] \<Rightarrow> (Inl (Reject 404 ''You are not part of any family''), d)
         | family # _ \<Rightarrow>
             if f_created_by family \<noteq> uid
             then (Inl (Reject 403 ''Only the family leader can create tasks''), d)
             else
               (let row = new_family_task now weekStart uid family b d;
                    d' = insert_family_task row d
                in (Inr (task_with_username d' (ft_id row)), d'))))"

text \<open>
  \<open>PUT /api/family/tasks/:taskId\<close>. The first statement joins the task with its family
  and with the requester's membership of that family.
\<close>

definition put_family_task_row :: "int \<Rightarrow> family_task_body \<Rightarrow> family_task_row \<Rightarrow> family_task_row" where
  "put_family_task_row now b t =
     t\<lparr> ft_title := fb_title b,
        ft_description := fb_description b,
        ft_priority := fb_priority b,
        ft_status := fb_status b,
        ft_assigned_to := fb_assigned_to b,
        ft_completed_at := (if fb_status b = Some ''completed'' then Some now else None),
        ft_updated_at := now \<rparr>"

definition put_family_task_lookup :: "db \<Rightarrow> nat \<Rightarrow> nat \<Rightarrow> (family_task_row \<times> nat) list" where
  "put_family_task_lookup d taskId uid =
     [(ft, f_created_by f).
        ft \<leftarrow> family_tasks d,
        f \<leftarrow> families d, ft_family_id ft = f_id f,
        fm \<leftarrow> family_members d, f_id f = m_family_id fm,
        ft_id ft = taskId \<and> m_user_id fm = uid]"

definition update_forbidden :: string where
  "update_forbidden = ''You don'' @ [CHR 0x27] @ ''t have permission to update this task''"

definition put_family_task ::
  "int \<Rightarrow> nat \<Rightarrow> nat \<Rightarrow> family_task_body \<Rightarrow> db \<Rightarrow> (failure + (family_task_row \<times> string) option) \<times> db" where
  "put_family_task now uid taskId b d =
     (case put_family_task_lookup d taskId uid of
        [] \<Rightarrow> (Inl (Reject 404 ''Task not found''), d)
      | (task, family_leader) # _ \<Rightarrow>
          if family_leader \<noteq> uid \<and> ft_assigned_to task \<noteq> Some uid
          then (Inl (Reject 403 update_forbidden), d)
          else
            (let d' = d\<lparr> family_tasks :=
                           map (\<lambda>t. if ft_id t = taskId then put_family_task_row now b t else t)
                             (family_tasks d) \<rparr>
             in (Inr (task_with_username d' taskId), d')))"

text \<open>\<open>DELETE /api/family/tasks/:taskId\<close>.\<close>

definition delete_family_task_lookup :: "db \<Rightarrow> nat \<Rightarrow> nat \<Rightarrow> nat list" where
  "delete_family_task_lookup d taskId uid =
     [ft_id ft.
        ft \<leftarrow> family_tasks d,
        f \<leftarrow> families d, ft_family_id ft = f_id f,
        ft_id ft = taskId \<and> f_created_by f = uid]"

definition delete_refused :: string where
  "delete_refused =
     ''Task not found or you don'' @ [CHR 0x27] @ ''t have permission to delete it''"

definition delete_family_task :: "nat \<Rightarrow> nat \<Rightarrow> db \<Rightarrow> (failure + string) \<times> db" where
  "delete_family_task uid taskId d =
     (if delete_family_task_lookup d taskId uid = []
      then (Inl (Reject 404 delete_refused), d)
      else (Inr ''Task deleted successfully'',
            d\<lparr> family_tasks := filter (\<lambda>t. ft_id t \<noteq> taskId) (family_tasks d) \<rparr>))"

subsection \<open>Dashboard (routes/dashboard.js)\<close>

text \<open>
  Both statements of \<open>GET /api/dashboard/stats\<close> read the user's unarchived tasks.
  \<open>COUNT(CASE WHEN c THEN 1 END)\<close> counts the rows where \<open>c\<close> holds; the second
  statement groups the rows by \<open>week_start\<close> and keeps the four latest groups.
\<close>

record counts =
  total_tasks :: nat
  completed_tasks :: nat
  pending_tasks :: nat

record stats =
  currentWeek :: counts
  weeklyData :: "(int \<times> counts) list"

definition count_rows :: "task_row list \<Rightarrow> counts" where
  "count_rows ts =
     \<lparr> total_tasks = length ts,
       completed_tasks = length (filter (\<lambda>t. t_status t = Some ''completed'') ts),
       pending_tasks = length (filter (\<lambda>t. t_status t = Some ''pending'') ts) \<rparr>"

definition get_stats :: "db \<Rightarrow> nat \<Rightarrow> stats" where
  "get_stats d uid =
     (let mine = filter (\<lambda>t. t_user_id t = uid \<and> \<not> t_archived t) (tasks d);
          weeks = take 4 (rev (sort (remdups (map t_week_start mine))))
      in \<lparr> currentWeek = count_rows mine,
           weeklyData = map (\<lambda>w. (w, count_rows (filter (\<lambda>t. t_week_start t = w) mine))) weeks \<rparr>)"

subsection \<open>Login (routes/auth.js)\<close>

text \<open>
  \<open>POST /api/auth/login\<close>, after the \<open>validateLogin\<close> middleware. \<open>compare\<close> is
  \<open>bcrypt.compare\<close> and \<open>generateToken\<close> the token issuer of the authentication
  middleware; both are parameters.
\<close>

record login_reply =
  lr_message :: string
  lr_id :: nat
  lr_username :: string
  lr_email :: string
  lr_token :: string

definition post_login ::
  "(string \<Rightarrow> string \<Rightarrow> bool) \<Rightarrow> (user_row \<Rightarrow> string) \<Rightarrow> string \<Rightarrow> string \<Rightarrow> db \<Rightarrow> failure + login_reply" where
  "post_login compare generateToken email password d =
     (case filter (\<lambda>u. u_email u = email) (users d) of
        [] \<Rightarrow> Inl (Reject 401 ''Invalid email or password'')
      | user # _ \<Rightarrow>
          if \<not> compare password (u_password_hash user)
          then Inl (Reject 401 ''Invalid email or password'')
          else Inr \<lparr> lr_message = ''Login successful'', lr_id = u_id user,
                     lr_username = u_username user, lr_email = u_email user,
                     lr_token = generateToken user \<rparr>)"

subsection \<open>The requests that write to the store\<close>

text \<open>
  Every handler of the sources that writes to the task and family tables, as one
  request type; \<open>apply_request\<close> is the store after the authenticated user \<open>uid\<close> has
  made the request. \<open>up\<close> is the runtime's \<open>toUpperCase\<close>; \<open>now\<close>, \<open>weekStart\<close>
  and \<open>code\<close> are the clock, the result of \<open>getCurrentWeekStart()\<close> and the result
  of \<open>generateInvitationCode()\<close> at the time of the request.
\<close>

datatype request =
    PostTask task_body
  | PutTask nat task_body
  | DeleteTask nat
  | ArchiveTasks
  | CreateFamily string
  | JoinFamily "string option"
  | PostFamilyTask family_task_body
  | PutFamilyTask nat family_task_body
  | DeleteFamilyTask nat

fun apply_request ::
  "(string \<Rightarrow> string) \<Rightarrow> int \<Rightarrow> int \<Rightarrow> string \<Rightarrow> nat \<Rightarrow> request \<Rightarrow> db \<Rightarrow> db" where
  "apply_request up now weekStart code uid (PostTask b) d = snd (post_task now weekStart uid b d)"
| "apply_request up now weekStart code uid (PutTask tid b) d = snd (put_task now uid tid b d)"
| "apply_request up now weekStart code uid (DeleteTask tid) d = snd (delete_task uid tid d)"
| "apply_request up now weekStart code uid ArchiveTasks d =
     snd (archive_tasks now weekStart uid d)"
| "apply_request up now weekStart code uid (CreateFamily name) d =
     snd (post_family_create code uid name d)"
| "apply_request up now weekStart code uid (JoinFamily c) d = snd (post_family_join up uid c d)"
| "apply_request up now weekStart code uid (PostFamilyTask b) d =
     snd (post_family_task now weekStart uid b d)"
| "apply_request up now weekStart code uid (PutFamilyTask tid b) d =
     snd (put_family_task now uid tid b d)"
| "apply_request up now weekStart code uid (DeleteFamilyTask tid) d =
     snd (delete_family_task uid tid d)"

subsection \<open>Vocabulary of the properties\<close>

text \<open>The store before any request: empty tables, every sequence at 1.\<close>

definition init_db :: db where
  "init_db = \<lparr> users = [], tasks = [], families = [], family_members = [], family_tasks = [],
               task_seq = 1, family_seq = 1, member_seq = 1, family_task_seq = 1 \<rparr>"

text \<open>A history of requests, each with its clock, week start, generated code and user.\<close>

fun run_requests ::
  "(string \<Rightarrow> string) \<Rightarrow> (int \<times> int \<times> string \<times> nat \<times> request) list \<Rightarrow> db \<Rightarrow> db" where
  "run_requests up [] d = d"
| "run_requests up ((now, weekStart, code, uid, rq) # rs) d =
     run_requests up rs (apply_request up now weekStart code uid rq d)"

text \<open>No user has two membership rows.\<close>

definition one_family :: "db \<Rightarrow> bool" where
  "one_family d = distinct (map m_user_id (family_members d))"

text \<open>
  A small store for concrete runs: alice leads family F1 with the invitation code
  \<open>ABC123\<close>, bob is a member, carol is in no family.
\<close>

definition example_task :: "nat \<Rightarrow> nat \<Rightarrow> int \<Rightarrow> string \<Rightarrow> int \<Rightarrow> int \<Rightarrow> task_row" where
  "example_task i uid p s w c =
     \<lparr> t_id = i, t_user_id = uid, t_title = ''Task'', t_description = None,
       t_priority = Some p, t_status = Some s, t_assigned_to = Some uid, t_week_start = w,
       t_archived = False, t_archived_at = None,
       t_completed_at = (if s = ''completed'' then Some c else None),
       t_created_at = c, t_updated_at = c \<rparr>"

definition example_chore :: family_task_row where
  "example_chore =
     \<lparr> ft_id = 1, ft_family_id = 1, ft_created_by = 1, ft_title = Some ''Dishes'',
       ft_description = None, ft_priority = Some 1, ft_status = Some ''pending'',
       ft_assigned_to = Some 2, ft_week_start = 14, ft_completed_at = None,
       ft_created_at = 100, ft_updated_at = 100 \<rparr>"

definition example_family :: family_row where
  "example_family =
     \<lparr> f_id = 1, f_name = ''F1'', f_created_by = 1, f_invitation_code = ''ABC123'' \<rparr>"

definition example_errand :: family_task_row where
  "example_errand =
     \<lparr> ft_id = 2, ft_family_id = 1, ft_created_by = 1, ft_title = Some ''Shopping'',
       ft_description = None, ft_priority = Some 4, ft_status = Some ''pending'',
       ft_assigned_to = Some 1, ft_week_start = 14, ft_completed_at = None,
       ft_created_at = 150, ft_updated_at = 150 \<rparr>"

definition example_db :: db where
  "example_db =
     \<lparr> users =
         [\<lparr> u_id = 1, u_username = ''alice'', u_email = ''alice@example.org'',
            u_password_hash = ''hash-of-a'' \<rparr>,
          \<lparr> u_id = 2, u_username = ''bob'', u_email = ''bob@example.org'',
            u_password_hash = ''hash-of-b'' \<rparr>,
          \<lparr> u_id = 3, u_username = ''carol'', u_email = ''carol@example.org'',
            u_password_hash = ''hash-of-c'' \<rparr>],
       tasks =
         [example_task 1 1 1 ''pending'' 14 100,
          example_task 2 1 3 ''completed'' 14 200,
          example_task 3 1 3 ''pending'' 0 300,
          example_task 4 2 2 ''pending'' 14 400],
       families = [example_family],
       family_members =
         [\<lparr> m_id = 1, m_family_id = 1, m_user_id = 1 \<rparr>,
          \<lparr> m_id = 2, m_family_id = 1, m_user_id = 2 \<rparr>],
       family_tasks = [example_chore, example_errand],
       task_seq = 5, family_seq = 2, member_seq = 3, family_task_seq = 3 \<rparr>"

definition example_done_body :: task_body where
  "example_done_body =
     \<lparr> b_title = ''Task'', b_description = None, b_priority = Some 1,
       b_status = Some ''completed'' \<rparr>"

definition example_done_family_body :: family_task_body where
  "example_done_family_body =
     \<lparr> fb_title = Some ''Dishes'', fb_description = None, fb_priority = Some 1,
       fb_status = Some ''completed'', fb_assigned_to = Some 2 \<rparr>"

text \<open>
  The order of a listing, as a relation between an earlier and a later row, each given
  by status, priority and creation time: a pending row is never behind a row that is not
  pending; among rows of the same group the priority does not increase, a NULL priority
  counting as the highest; and among rows of the same group and priority the creation
  time does not increase.
\<close>

fun priority_desc :: "int option \<Rightarrow> int option \<Rightarrow> bool" where
  "priority_desc None _ = True"
| "priority_desc (Some a) None = False"
| "priority_desc (Some a) (Some b) = (b \<le> a)"

definition listed_before ::
  "string option \<Rightarrow> int option \<Rightarrow> int \<Rightarrow> string option \<Rightarrow> int option \<Rightarrow> int \<Rightarrow> bool" where
  "listed_before s p c s' p' c' =
     ((s' = Some ''pending'' \<longrightarrow> s = Some ''pending'')
      \<and> ((s = Some ''pending'') = (s' = Some ''pending'') \<longrightarrow>
           priority_desc p p' \<and> (p = p' \<longrightarrow> c' \<le> c)))"

text \<open>Task ids are unique and below the sequence that issues the next one.\<close>

definition task_ids_fresh :: "db \<Rightarrow> bool" where
  "task_ids_fresh d =
     (distinct (map t_id (tasks d)) \<and> list_all (\<lambda>t. t_id t < task_seq d) (tasks d))"

text \<open>The id \<open>k\<close> has been issued, and every task that carries it is archived.\<close>

definition stays_archived :: "nat \<Rightarrow> db \<Rightarrow> bool" where
  "stays_archived k d =
     (k < task_seq d \<and> list_all (\<lambda>t. t_id t = k \<longrightarrow> t_archived t) (tasks d))"

text \<open>
  Membership of a family; that a family task lies in a family of which the user is a
  member; that the user leads the family that owns the task; that the user is the
  task's assignee.
\<close>

definition is_member :: "db \<Rightarrow> nat \<Rightarrow> nat \<Rightarrow> bool" where
  "is_member d fid uid =
     list_ex (\<lambda>fm. m_family_id fm = fid \<and> m_user_id fm = uid) (family_members d)"

definition task_in_requesters_family :: "db \<Rightarrow> nat \<Rightarrow> nat \<Rightarrow> bool" where
  "task_in_requesters_family d taskId uid =
     list_ex (\<lambda>ft. ft_id ft = taskId
                \<and> list_ex (\<lambda>f. f_id f = ft_family_id ft \<and> is_member d (f_id f) uid) (families d))
       (family_tasks d)"

definition is_leader_of_task :: "db \<Rightarrow> nat \<Rightarrow> nat \<Rightarrow> bool" where
  "is_leader_of_task d taskId uid =
     list_ex (\<lambda>ft. ft_id ft = taskId
                \<and> list_ex (\<lambda>f. f_id f = ft_family_id ft \<and> f_created_by f = uid) (families d))
       (family_tasks d)"

definition is_assignee :: "db \<Rightarrow> nat \<Rightarrow> nat \<Rightarrow> bool" where
  "is_assignee d taskId uid =
     list_ex (\<lambda>ft. ft_id ft = taskId \<and> ft_assigned_to ft = Some uid) (family_tasks d)"

definition example_outsider_body :: family_task_body where
  "example_outsider_body =
     \<lparr> fb_title = Some ''Mow the lawn'', fb_description = None, fb_priority = None,
       fb_status = None, fb_assigned_to = Some 3 \<rparr>"

text \<open>
  What is used of \<open>toUpperCase\<close>: on a string of ASCII characters (bytes below 128) it
  raises the letters \<open>a\<close> to \<open>z\<close> and leaves every other character as it is.
\<close>

definition is_ascii :: "char \<Rightarrow> bool" where
  "is_ascii c = (\<not> digit7 c)"

definition ascii_upper_char :: "char \<Rightarrow> char" where
  "ascii_upper_char c =
     (case map_of (zip ''abcdefghijklmnopqrstuvwxyz'' ''ABCDEFGHIJKLMNOPQRSTUVWXYZ'') c of
        Some u \<Rightarrow> u
      | None \<Rightarrow> c)"

definition ascii_upper :: "string \<Rightarrow> string" where
  "ascii_upper s = map ascii_upper_char s"

definition upper_on_ascii :: "(string \<Rightarrow> string) \<Rightarrow> bool" where
  "upper_on_ascii up = (\<forall>s. list_all is_ascii s \<longrightarrow> up s = ascii_upper s)"

text \<open>Two strings agree up to the case of their ASCII letters.\<close>

definition same_up_to_case :: "string \<Rightarrow> string \<Rightarrow> bool" where
  "same_up_to_case a b = list_all2 (\<lambda>x y. ascii_upper_char x = ascii_upper_char y) a b"

text \<open>
  The ids of families and of family tasks are unique and below the sequences that issue
  the next ones.
\<close>

definition family_ids_fresh :: "db \<Rightarrow> bool" where
  "family_ids_fresh d =
     (distinct (map f_id (families d)) \<and> list_all (\<lambda>f. f_id f < family_seq d) (families d)
      \<and> distinct (map ft_id (family_tasks d))
      \<and> list_all (\<lambda>t. ft_id t < family_task_seq d) (family_tasks d))"

text \<open>A toy password check for concrete runs: the hash of \<open>p\<close> is \<open>hash-of-p\<close>.\<close>

definition example_compare :: "string \<Rightarrow> string \<Rightarrow> bool" where
  "example_compare password hash = (hash = ''hash-of-'' @ password)"

definition example_token :: "user_row \<Rightarrow> string" where
  "example_token u = ''token-'' @ u_username u"

text \<open>The user's unarchived tasks of one week bucket.\<close>

definition week_rows :: "db \<Rightarrow> nat \<Rightarrow> int \<Rightarrow> task_row list" where
  "week_rows d uid w =
     filter (\<lambda>t. t_user_id t = uid \<and> \<not> t_archived t \<and> t_week_start t = w) (tasks d)"

definition example_lawn :: family_task_row where
  "example_lawn =
     new_family_task 900 1209600000 1 example_family example_outsider_body example_db"

definition example_reopen_body :: task_body where
  "example_reopen_body =
     \<lparr> b_title = ''Task'', b_description = None, b_priority = Some 3,
       b_status = Some ''pending'' \<rparr>"

text \<open>
  Two invitation codes for concrete runs: one of white space only (a no-break space, a
  space and an ideographic space), and the code of the example family in mixed case
  between a no-break space and a space.
\<close>

definition example_blank_code :: string where
  "example_blank_code = [CHR 0xC2, CHR 0xA0, CHR 0x20, CHR 0xE3, CHR 0x80, CHR 0x80]"

definition example_padded_code :: string where
  "example_padded_code = [CHR 0xC2, CHR 0xA0] @ ''Abc123 ''"


section \<open>Properties\<close>

subsection \<open>Auxiliary facts\<close>

lemma set_map_if_cases:
  assumes "y \<in> set (map (\<lambda>x. if P x then f x else x) xs)"
  shows "(\<exists>x \<in> set xs. P x \<and> y = f x) \<or> (y \<in> set xs \<and> \<not> P y)"
  using assms by (induction xs) (auto split: if_splits)

lemma put_task_row_fields:
  "t_status (put_task_row now b t) = b_status b"
  "t_completed_at (put_task_row now b t) = (if b_status b = Some ''completed'' then Some now else None)"
  "t_id (put_task_row now b t) = t_id t"
  "t_user_id (put_task_row now b t) = t_user_id t"
  "t_archived (put_task_row now b t) = t_archived t"
  by (simp_all add: put_task_row_def)

lemma put_family_task_row_fields:
  "ft_status (put_family_task_row now b t) = fb_status b"
  "ft_completed_at (put_family_task_row now b t) =
     (if fb_status b = Some ''completed'' then Some now else None)"
  "ft_id (put_family_task_row now b t) = ft_id t"
  by (simp_all add: put_family_task_row_def)

lemma put_task_tasks:
  "put_task now uid tid b d = (Inr r, d') \<Longrightarrow>
   tasks d' = map (\<lambda>t. if t_id t = tid \<and> t_user_id t = uid then put_task_row now b t else t)
                (tasks d)"
  unfolding put_task_def Let_def by (simp split: if_splits) auto

lemma put_family_task_tasks:
  "put_family_task now uid tid fb d = (Inr fr, d') \<Longrightarrow>
   family_tasks d' = map (\<lambda>t. if ft_id t = tid then put_family_task_row now fb t else t)
                       (family_tasks d)"
  unfolding put_family_task_def Let_def
  by (cases "put_family_task_lookup d tid uid") (auto split: if_splits prod.splits)

lemma post_task_completed:
  "(t_completed_at (fst (post_task now weekStart uid b d)) \<noteq> None)
      = (t_status (fst (post_task now weekStart uid b d)) = Some ''completed'')"
  by (cases "b_status b") (auto simp: post_task_def Let_def)

lemma post_task_stored:
  "tasks (snd (post_task now weekStart uid b d)) =
     tasks d @ [fst (post_task now weekStart uid b d)]"
  by (simp add: post_task_def Let_def)

subsection \<open>Runs on the example store\<close>

lemma ex_put_task:
  "fst (put_task 900 1 1 example_done_body example_db) =
     Inr (Some (put_task_row 900 example_done_body (example_task 1 1 1 ''pending'' 14 100)))"
  by (simp add: put_task_def example_db_def example_task_def Let_def put_task_row_def)

lemma ex_put_task_mem:
  "put_task_row 900 example_done_body (example_task 1 1 1 ''pending'' 14 100)
     \<in> set (tasks (snd (put_task 900 1 1 example_done_body example_db)))"
  by (simp add: put_task_def example_db_def example_task_def Let_def put_task_row_def)

lemma ex_lookup: "put_family_task_lookup example_db 1 2 = [(example_chore, 1)]"
  by (simp add: put_family_task_lookup_def example_db_def example_family_def example_chore_def
      example_errand_def)

lemma ex_put_family_task:
  "snd (put_family_task 900 2 1 example_done_family_body example_db) =
     example_db\<lparr> family_tasks :=
       [put_family_task_row 900 example_done_family_body example_chore, example_errand] \<rparr>"
  unfolding put_family_task_def ex_lookup
  by (simp add: example_db_def example_chore_def example_errand_def Let_def)

lemma ex_put_family_task_ok:
  "\<exists>r. fst (put_family_task 900 2 1 example_done_family_body example_db) = Inr r"
  unfolding put_family_task_def ex_lookup
  by (simp add: example_db_def example_chore_def example_errand_def Let_def)

subsection \<open>Defaults of a new personal task\<close>

text \<open>
  Claim C10. The create handler replaces a falsy priority (missing or 0) by 1 and a
  falsy status (missing or empty) by \<open>pending\<close>; so no request makes it store the
  priority 0. The row it answers with is the row appended to the table.
\<close>

theorem create_defaults_by_falsy_coercion:
  "(b_priority b = None \<or> b_priority b = Some 0 \<longrightarrow>
      t_priority (fst (post_task now weekStart uid b d)) = Some 1)
   \<and> (b_status b = None \<or> b_status b = Some [] \<longrightarrow>
      t_status (fst (post_task now weekStart uid b d)) = Some ''pending'')
   \<and> t_priority (fst (post_task now weekStart uid b d)) \<noteq> Some 0
   \<and> tasks (snd (post_task now weekStart uid b d)) =
       tasks d @ [fst (post_task now weekStart uid b d)]"
  by (cases "b_priority b"; cases "b_status b") (auto simp: post_task_def Let_def)

theorem create_defaults_by_falsy_coercion_witness:
  "t_priority (fst (post_task 5 0 1
       \<lparr>b_title = ''x'', b_description = None, b_priority = Some 0, b_status = Some []\<rparr>
       init_db)) = Some 1
   \<and> t_status (fst (post_task 5 0 1
       \<lparr>b_title = ''x'', b_description = None, b_priority = Some 0, b_status = Some []\<rparr>
       init_db)) = Some ''pending''"
  using create_defaults_by_falsy_coercion [of
      "\<lparr>b_title = ''x'', b_description = None, b_priority = Some 0, b_status = Some []\<rparr>"
      5 0 1 init_db]
  by simp

subsection \<open>One family per user\<close>

lemma no_membership_iff:
  "(filter (\<lambda>m. m_user_id m = uid) ms = []) = (uid \<notin> set (map m_user_id ms))"
  by (induction ms) auto

lemma insert_member_members:
  "family_members (insert_member fid uid d) =
     family_members d @ [\<lparr> m_id = member_seq d, m_family_id = fid, m_user_id = uid \<rparr>]"
  by (simp add: insert_member_def)

lemma withTransaction_failure:
  "fst (withTransaction body d) = Inl e \<Longrightarrow> snd (withTransaction body d) = d"
  by (simp add: withTransaction_def split: prod.splits sum.splits)

lemma create_family_conflict:
  "filter (\<lambda>m. m_user_id m = uid) (family_members d) \<noteq> [] \<Longrightarrow>
   post_family_create code uid name d = (Inl (Raise ''You are already a member of a family''), d)"
  by (simp add: post_family_create_def withTransaction_def create_family_tx_def)

lemma join_family_conflict:
  "filter (\<lambda>m. m_user_id m = uid) (family_members d) \<noteq> [] \<Longrightarrow> c \<noteq> [] \<Longrightarrow> trim c \<noteq> [] \<Longrightarrow>
   post_family_join up uid (Some c) d = (Inl (Raise ''You are already a member of a family''), d)"
  by (simp add: post_family_join_def withTransaction_def join_family_tx_def)

lemma join_family_failure:
  "fst (post_family_join up uid c d) = Inl e \<Longrightarrow> snd (post_family_join up uid c d) = d"
  by (cases c) (auto simp: post_family_join_def withTransaction_failure)

lemma create_family_members:
  "family_members (snd (post_family_create code uid name d)) = family_members d
   \<or> (uid \<notin> set (map m_user_id (family_members d))
      \<and> (\<exists>m. m_user_id m = uid
             \<and> family_members (snd (post_family_create code uid name d)) = family_members d @ [m]))"
proof (cases "filter (\<lambda>m. m_user_id m = uid) (family_members d) = []")
  case True
  then show ?thesis
    by (simp add: post_family_create_def withTransaction_def create_family_tx_def Let_def
        insert_member_members no_membership_iff)
next
  case False
  then show ?thesis by (simp add: create_family_conflict)
qed

lemma join_family_members:
  "family_members (snd (post_family_join up uid c d)) = family_members d
   \<or> (uid \<notin> set (map m_user_id (family_members d))
      \<and> (\<exists>m. m_user_id m = uid
             \<and> family_members (snd (post_family_join up uid c d)) = family_members d @ [m]))"
proof (cases "filter (\<lambda>m. m_user_id m = uid) (family_members d) = []")
  case True
  then show ?thesis
    by (cases c; cases "filter (\<lambda>f. f_invitation_code f = up (trim (the c))) (families d)")
       (simp_all add: post_family_join_def withTransaction_def join_family_tx_def Let_def
        insert_member_members no_membership_iff)
next
  case False
  then show ?thesis
    by (cases c) (simp_all add: post_family_join_def withTransaction_def join_family_tx_def)
qed

lemma post_family_task_cases:
  "snd (post_family_task now weekStart uid fb d) = d
   \<or> (\<exists>family. family \<in> set (requester_families d uid) \<and> f_created_by family = uid
        \<and> truthy_nat (fb_assigned_to fb)
        \<and> post_family_task now weekStart uid fb d =
           (Inr (task_with_username
                   (insert_family_task (new_family_task now weekStart uid family fb d) d)
                   (family_task_seq d)),
            insert_family_task (new_family_task now weekStart uid family fb d) d))"
proof (cases "requester_families d uid")
  case Nil
  then show ?thesis by (simp add: post_family_task_def)
next
  case (Cons family rest)
  then have "family \<in> set (requester_families d uid)" by simp
  with Cons show ?thesis
    unfolding post_family_task_def Let_def
    by (auto simp: new_family_task_def)
qed

lemma other_requests_members:
  "family_members (snd (post_task now weekStart uid b d)) = family_members d"
  "family_members (snd (put_task now uid tid b d)) = family_members d"
  "family_members (snd (delete_task uid tid d)) = family_members d"
  "family_members (snd (archive_tasks now weekStart uid d)) = family_members d"
  "family_members (snd (put_family_task now uid tid fb d)) = family_members d"
  "family_members (snd (delete_family_task uid tid d)) = family_members d"
       apply (simp add: post_task_def Let_def)
      apply (simp add: put_task_def Let_def)
     apply (simp add: delete_task_def Let_def)
    apply (simp add: archive_tasks_def)
   apply (simp add: put_family_task_def Let_def split: list.splits prod.splits)
  apply (simp add: delete_family_task_def)
  done

lemma post_family_task_members:
  "family_members (snd (post_family_task now weekStart uid fb d)) = family_members d"
  using post_family_task_cases [of now weekStart uid fb d]
  by (auto simp: insert_family_task_def)

lemma apply_request_one_family:
  "one_family d \<Longrightarrow> one_family (apply_request up now weekStart code uid rq d)"
proof (cases rq)
  case (CreateFamily name)
  assume "one_family d"
  with create_family_members [of code uid name d] show ?thesis
    unfolding CreateFamily by (auto simp: one_family_def)
next
  case (JoinFamily c)
  assume "one_family d"
  with join_family_members [of up uid c d] show ?thesis
    unfolding JoinFamily by (auto simp: one_family_def)
qed (simp_all add: one_family_def other_requests_members post_family_task_members)

lemma run_requests_one_family:
  "one_family d \<Longrightarrow> one_family (run_requests up rs d)"
  by (induction up rs d rule: run_requests.induct) (simp_all add: apply_request_one_family)

text \<open>
  Claim C1. Family create and family join run their membership check and their inserts
  inside one transaction. When the user already has a membership row, create fails with
  the error "You are already a member of a family" and so does join (join validates the
  invitation code before it opens the transaction, so this is for a code that is not
  blank); whenever either of them fails, the store is left as it was: no family row and
  no membership row is written. Consequently no request gives a user a second
  membership row, and in every store reached from the empty one by any history of
  requests each user has at most one.
\<close>

theorem one_family_per_user:
  "(filter (\<lambda>m. m_user_id m = uid) (family_members d) \<noteq> [] \<longrightarrow>
      post_family_create code uid name d =
        (Inl (Raise ''You are already a member of a family''), d)
      \<and> (c \<noteq> [] \<and> trim c \<noteq> [] \<longrightarrow>
           post_family_join up uid (Some c) d =
             (Inl (Raise ''You are already a member of a family''), d)))
   \<and> (fst (post_family_create code uid name d) = Inl e \<longrightarrow>
        snd (post_family_create code uid name d) = d)
   \<and> (fst (post_family_join up uid jc d) = Inl e \<longrightarrow> snd (post_family_join up uid jc d) = d)
   \<and> (one_family d \<longrightarrow> one_family (apply_request up now weekStart code uid rq d))
   \<and> one_family (run_requests up rs init_db)"
proof (intro conjI impI)
  assume m: "filter (\<lambda>m. m_user_id m = uid) (family_members d) \<noteq> []"
  show "post_family_create code uid name d =
          (Inl (Raise ''You are already a member of a family''), d)"
    by (rule create_family_conflict [OF m])
  assume "c \<noteq> [] \<and> trim c \<noteq> []"
  then show "post_family_join up uid (Some c) d =
          (Inl (Raise ''You are already a member of a family''), d)"
    by (simp add: join_family_conflict [OF m])
next
  assume "fst (post_family_create code uid name d) = Inl e"
  then show "snd (post_family_create code uid name d) = d"
    unfolding post_family_create_def by (rule withTransaction_failure)
next
  assume "fst (post_family_join up uid jc d) = Inl e"
  then show "snd (post_family_join up uid jc d) = d" by (rule join_family_failure)
next
  assume "one_family d"
  then show "one_family (apply_request up now weekStart code uid rq d)"
    by (rule apply_request_one_family)
next
  have "one_family init_db" by (simp add: one_family_def init_db_def)
  then show "one_family (run_requests up rs init_db)" by (rule run_requests_one_family)
qed

theorem one_family_per_user_witness:
  "post_family_create ''XYZ789'' 1 ''Second'' example_db =
     (Inl (Raise ''You are already a member of a family''), example_db)
   \<and> post_family_join ascii_upper 1 (Some ''abc123'') example_db =
     (Inl (Raise ''You are already a member of a family''), example_db)
   \<and> snd (post_family_create ''XYZ789'' 1 ''Second'' example_db) = example_db
   \<and> snd (post_family_join ascii_upper 1 (Some ''abc123'') example_db) = example_db
   \<and> one_family (apply_request ascii_upper 500 1209600000 ''XYZ789'' 3 (CreateFamily ''Second'') example_db)"
proof -
  have m: "filter (\<lambda>m. m_user_id m = 1) (family_members example_db) \<noteq> []"
    by (simp add: example_db_def)
  have c: "''abc123'' \<noteq> [] \<and> trim ''abc123'' \<noteq> []"
    by (simp add: trim_def white_space_def)
  have o: "one_family example_db"
    by (simp add: one_family_def example_db_def)
  note T = one_family_per_user [where up = ascii_upper and uid = 1 and d = example_db
      and code = "''XYZ789''"
      and name = "''Second''" and c = "''abc123''" and jc = "Some ''abc123''"
      and e = "Raise ''You are already a member of a family''"]
  have c1: "post_family_create ''XYZ789'' 1 ''Second'' example_db =
     (Inl (Raise ''You are already a member of a family''), example_db)"
    using T m by blast
  have c2: "post_family_join ascii_upper 1 (Some ''abc123'') example_db =
     (Inl (Raise ''You are already a member of a family''), example_db)"
    using T m c by blast
  have f1: "fst (post_family_create ''XYZ789'' 1 ''Second'' example_db) =
      Inl (Raise ''You are already a member of a family'')"
    unfolding c1 by simp
  have f2: "fst (post_family_join ascii_upper 1 (Some ''abc123'') example_db) =
      Inl (Raise ''You are already a member of a family'')"
    unfolding c2 by simp
  have c3: "snd (post_family_create ''XYZ789'' 1 ''Second'' example_db) = example_db"
    using T f1 by blast
  have c4: "snd (post_family_join ascii_upper 1 (Some ''abc123'') example_db) = example_db"
    using T f2 by blast
  have c5: "one_family (apply_request ascii_upper 500 1209600000 ''XYZ789'' 3 (CreateFamily ''Second'')
              example_db)"
    using one_family_per_user [where up = ascii_upper and d = example_db and now = 500
        and weekStart = 1209600000
        and code = "''XYZ789''" and uid = 3 and rq = "CreateFamily ''Second''"] o
    by blast
  from c1 c2 c3 c4 c5 show ?thesis by blast
qed

subsection \<open>The order of the task listings\<close>

lemma order_key_le_iff:
  "(order_key s p c \<le> order_key s' p' c') = listed_before s p c s' p' c'"
  by (cases p; cases p')
     (auto simp: order_key_def pending_rank_def listed_before_def less_eq_prod_def)

lemma sort_key_nth_mono:
  assumes "i < j" "j < length (sort_key k xs)"
  shows "k (sort_key k xs ! i) \<le> k (sort_key k xs ! j)"
proof -
  have "sorted (map k (sort_key k xs))" by (rule sorted_sort_key)
  moreover from assms have "i \<le> j" "j < length (map k (sort_key k xs))" by simp_all
  ultimately have "map k (sort_key k xs) ! i \<le> map k (sort_key k xs) ! j"
    by (rule sorted_nth_mono)
  with assms show ?thesis by simp
qed

lemma family_task_rows_sound:
  assumes "r \<in> set (family_task_rows d uid)"
  shows "fst r \<in> set (family_tasks d)"
    and "\<exists>fm \<in> set (family_members d). m_user_id fm = uid \<and> m_family_id fm = ft_family_id (fst r)"
  using assms unfolding family_task_rows_def by (auto split: if_splits)

text \<open>
  Claim C3. The personal listing holds exactly the user's tasks that are not archived,
  each once, and any row of it stands in the listing order to every later row: pending
  rows first, then by descending priority, then by descending creation time. Every row
  of the family listing is a task of a family the user is a member of, and its rows are
  in the same order.
\<close>

theorem listing_order:
  "mset (get_tasks d uid) = mset (filter (\<lambda>t. t_user_id t = uid \<and> \<not> t_archived t) (tasks d))
   \<and> (i < j \<and> j < length (get_tasks d uid) \<longrightarrow>
        listed_before
          (t_status (get_tasks d uid ! i)) (t_priority (get_tasks d uid ! i))
          (t_created_at (get_tasks d uid ! i))
          (t_status (get_tasks d uid ! j)) (t_priority (get_tasks d uid ! j))
          (t_created_at (get_tasks d uid ! j)))
   \<and> (\<forall>r \<in> set (get_family_tasks d uid).
         fst r \<in> set (family_tasks d)
         \<and> (\<exists>fm \<in> set (family_members d).
               m_user_id fm = uid \<and> m_family_id fm = ft_family_id (fst r)))
   \<and> (i < j \<and> j < length (get_family_tasks d uid) \<longrightarrow>
        listed_before
          (ft_status (fst (get_family_tasks d uid ! i))) (ft_priority (fst (get_family_tasks d uid ! i)))
          (ft_created_at (fst (get_family_tasks d uid ! i)))
          (ft_status (fst (get_family_tasks d uid ! j))) (ft_priority (fst (get_family_tasks d uid ! j)))
          (ft_created_at (fst (get_family_tasks d uid ! j))))"
proof (intro conjI impI ballI)
  show "mset (get_tasks d uid) = mset (filter (\<lambda>t. t_user_id t = uid \<and> \<not> t_archived t) (tasks d))"
    by (simp add: get_tasks_def)
next
  assume "i < j \<and> j < length (get_tasks d uid)"
  then have "task_key (get_tasks d uid ! i) \<le> task_key (get_tasks d uid ! j)"
    unfolding get_tasks_def by (simp add: sort_key_nth_mono)
  then show "listed_before
          (t_status (get_tasks d uid ! i)) (t_priority (get_tasks d uid ! i))
          (t_created_at (get_tasks d uid ! i))
          (t_status (get_tasks d uid ! j)) (t_priority (get_tasks d uid ! j))
          (t_created_at (get_tasks d uid ! j))"
    by (simp add: task_key_def order_key_le_iff)
next
  fix r assume "r \<in> set (get_family_tasks d uid)"
  then have "r \<in> set (family_task_rows d uid)" by (simp add: get_family_tasks_def)
  then show "fst r \<in> set (family_tasks d)"
    and "\<exists>fm \<in> set (family_members d).
               m_user_id fm = uid \<and> m_family_id fm = ft_family_id (fst r)"
    by (rule family_task_rows_sound)+
next
  assume "i < j \<and> j < length (get_family_tasks d uid)"
  then have "family_task_key (fst (get_family_tasks d uid ! i))
               \<le> family_task_key (fst (get_family_tasks d uid ! j))"
    unfolding get_family_tasks_def
    using sort_key_nth_mono [of i j "\<lambda>r. family_task_key (fst r)" "family_task_rows d uid"]
    by simp
  then show "listed_before
          (ft_status (fst (get_family_tasks d uid ! i))) (ft_priority (fst (get_family_tasks d uid ! i)))
          (ft_created_at (fst (get_family_tasks d uid ! i)))
          (ft_status (fst (get_family_tasks d uid ! j))) (ft_priority (fst (get_family_tasks d uid ! j)))
          (ft_created_at (fst (get_family_tasks d uid ! j)))"
    by (simp add: family_task_key_def order_key_le_iff)
qed

lemma ex_get_tasks:
  "get_tasks example_db 1 =
     [example_task 3 1 3 ''pending'' 0 300, example_task 1 1 1 ''pending'' 14 100,
      example_task 2 1 3 ''completed'' 14 200]"
  by (simp add: get_tasks_def example_db_def example_task_def task_key_def order_key_def
      pending_rank_def less_eq_prod_def)

lemma ex_family_task_rows:
  "family_task_rows example_db 2 = [(example_chore, ''bob''), (example_errand, ''alice'')]"
  by (simp add: family_task_rows_def example_db_def example_family_def example_chore_def
      example_errand_def)

lemma ex_get_family_tasks:
  "get_family_tasks example_db 2 = [(example_errand, ''alice''), (example_chore, ''bob'')]"
  unfolding get_family_tasks_def ex_family_task_rows
  by (simp add: family_task_key_def order_key_def pending_rank_def less_eq_prod_def
      example_chore_def example_errand_def)

theorem listing_order_witness:
  "get_tasks example_db 1 =
     [example_task 3 1 3 ''pending'' 0 300, example_task 1 1 1 ''pending'' 14 100,
      example_task 2 1 3 ''completed'' 14 200]
   \<and> listed_before (Some ''pending'') (Some 3) 300 (Some ''completed'') (Some 3) 200
   \<and> get_family_tasks example_db 2 = [(example_errand, ''alice''), (example_chore, ''bob'')]
   \<and> listed_before (Some ''pending'') (Some 4) 150 (Some ''pending'') (Some 1) 100
   \<and> example_errand \<in> set (family_tasks example_db)"
proof -
  have h: "(0::nat) < 2 \<and> 2 < length (get_tasks example_db 1)"
    unfolding ex_get_tasks by simp
  have hf: "(0::nat) < 1 \<and> 1 < length (get_family_tasks example_db 2)"
    unfolding ex_get_family_tasks by simp
  have "listed_before
          (t_status (get_tasks example_db 1 ! 0)) (t_priority (get_tasks example_db 1 ! 0))
          (t_created_at (get_tasks example_db 1 ! 0))
          (t_status (get_tasks example_db 1 ! 2)) (t_priority (get_tasks example_db 1 ! 2))
          (t_created_at (get_tasks example_db 1 ! 2))"
    using listing_order [of example_db 1 0 2] h by blast
  then have p: "listed_before (Some ''pending'') (Some 3) 300 (Some ''completed'') (Some 3) 200"
    unfolding ex_get_tasks by (simp add: example_task_def)
  have "listed_before
          (ft_status (fst (get_family_tasks example_db 2 ! 0)))
          (ft_priority (fst (get_family_tasks example_db 2 ! 0)))
          (ft_created_at (fst (get_family_tasks example_db 2 ! 0)))
          (ft_status (fst (get_family_tasks example_db 2 ! 1)))
          (ft_priority (fst (get_family_tasks example_db 2 ! 1)))
          (ft_created_at (fst (get_family_tasks example_db 2 ! 1)))"
    using listing_order [of example_db 2 0 1] hf by blast
  then have f: "listed_before (Some ''pending'') (Some 4) 150 (Some ''pending'') (Some 1) 100"
    unfolding ex_get_family_tasks by (simp add: example_chore_def example_errand_def)
  have "(example_errand, ''alice'') \<in> set (get_family_tasks example_db 2)"
    unfolding ex_get_family_tasks by simp
  with listing_order [of example_db 2 0 1]
  have "fst (example_errand, ''alice'') \<in> set (family_tasks example_db)" by blast
  then have e: "example_errand \<in> set (family_tasks example_db)" by simp
  from p f e ex_get_tasks ex_get_family_tasks show ?thesis by blast
qed

subsection \<open>Archiving\<close>

lemma iso_date_last_week: "iso_date (weekStart - 7 * 24 * 60 * 60 * 1000) = iso_date weekStart - 7"
proof -
  have "weekStart - 7 * 24 * 60 * 60 * 1000 = weekStart + (- 7) * ms_per_day"
    by (simp add: ms_per_day_def)
  then show ?thesis
    unfolding iso_date_def by (simp add: ms_per_day_def)
qed

lemma archive_sel_iff:
  "archive_sel weekStart uid t =
     (t_user_id t = uid \<and> \<not> t_archived t \<and> t_week_start t < iso_date weekStart - 7)"
  unfolding archive_sel_def iso_date_last_week by auto

lemma archive_sel_fun:
  "archive_sel weekStart uid =
     (\<lambda>t. t_user_id t = uid \<and> \<not> t_archived t \<and> t_week_start t < iso_date weekStart - 7)"
  by (rule ext) (rule archive_sel_iff)

lemma archive_tasks_result:
  "archive_tasks now weekStart uid d =
     (length (filter (archive_sel weekStart uid) (tasks d)),
      d\<lparr> tasks := map (\<lambda>t. if archive_sel weekStart uid t
                           then t\<lparr> t_archived := True, t_archived_at := Some now \<rparr>
                           else t) (tasks d) \<rparr>)"
  by (simp add: archive_tasks_def)

lemma archive_sel_after:
  "filter (archive_sel weekStart uid)
     (map (\<lambda>t. if archive_sel weekStart uid t
                then t\<lparr> t_archived := True, t_archived_at := Some now \<rparr> else t) ts) = []"
  by (induction ts) (auto simp: archive_sel_def)

lemma archive_map_after:
  "map (\<lambda>t. if archive_sel weekStart uid t
             then t\<lparr> t_archived := True, t_archived_at := Some now' \<rparr> else t)
     (map (\<lambda>t. if archive_sel weekStart uid t
                then t\<lparr> t_archived := True, t_archived_at := Some now \<rparr> else t) ts)
   = map (\<lambda>t. if archive_sel weekStart uid t
                then t\<lparr> t_archived := True, t_archived_at := Some now \<rparr> else t) ts"
  by (induction ts) (auto simp: archive_sel_def)

lemma archive_tasks_twice:
  "archive_tasks now' weekStart uid (snd (archive_tasks now weekStart uid d)) =
     (0, snd (archive_tasks now weekStart uid d))"
  by (simp add: archive_tasks_result archive_sel_after archive_map_after del: map_map)

lemma archive_tasks_rows:
  "tasks (snd (archive_tasks now weekStart uid d)) =
     map (\<lambda>t. if t_user_id t = uid \<and> \<not> t_archived t \<and> t_week_start t < iso_date weekStart - 7
               then t\<lparr> t_archived := True, t_archived_at := Some now \<rparr> else t) (tasks d)"
  by (simp add: archive_tasks_result archive_sel_iff archive_sel_fun)

lemma archive_tasks_count:
  "fst (archive_tasks now weekStart uid d) =
     length (filter (\<lambda>t. t_user_id t = uid \<and> \<not> t_archived t
                          \<and> t_week_start t < iso_date weekStart - 7) (tasks d))"
  by (simp add: archive_tasks_result archive_sel_iff archive_sel_fun)

lemma family_requests_tasks:
  "tasks (snd (post_family_create code uid name d)) = tasks d
     \<and> task_seq (snd (post_family_create code uid name d)) = task_seq d"
  "tasks (snd (post_family_join up uid c d)) = tasks d
     \<and> task_seq (snd (post_family_join up uid c d)) = task_seq d"
  "tasks (snd (post_family_task now weekStart uid fb d)) = tasks d
     \<and> task_seq (snd (post_family_task now weekStart uid fb d)) = task_seq d"
  "tasks (snd (put_family_task now uid tid fb d)) = tasks d
     \<and> task_seq (snd (put_family_task now uid tid fb d)) = task_seq d"
  "tasks (snd (delete_family_task uid tid d)) = tasks d
     \<and> task_seq (snd (delete_family_task uid tid d)) = task_seq d"
proof -
  show "tasks (snd (post_family_create code uid name d)) = tasks d
     \<and> task_seq (snd (post_family_create code uid name d)) = task_seq d"
    by (simp add: post_family_create_def withTransaction_def create_family_tx_def Let_def
        insert_member_def)
  show "tasks (snd (post_family_join up uid c d)) = tasks d
     \<and> task_seq (snd (post_family_join up uid c d)) = task_seq d"
    by (cases c; cases "filter (\<lambda>f. f_invitation_code f = up (trim (the c))) (families d)")
       (simp_all add: post_family_join_def withTransaction_def join_family_tx_def insert_member_def)
  show "tasks (snd (post_family_task now weekStart uid fb d)) = tasks d
     \<and> task_seq (snd (post_family_task now weekStart uid fb d)) = task_seq d"
    using post_family_task_cases [of now weekStart uid fb d]
    by (auto simp: insert_family_task_def)
  show "tasks (snd (put_family_task now uid tid fb d)) = tasks d
     \<and> task_seq (snd (put_family_task now uid tid fb d)) = task_seq d"
    by (simp add: put_family_task_def Let_def split: list.splits prod.splits)
  show "tasks (snd (delete_family_task uid tid d)) = tasks d
     \<and> task_seq (snd (delete_family_task uid tid d)) = task_seq d"
    by (simp add: delete_family_task_def)
qed

lemma put_task_cases:
  "snd (put_task now uid tid b d) = d
   \<or> snd (put_task now uid tid b d) =
       d\<lparr> tasks := map (\<lambda>t. if t_id t = tid \<and> t_user_id t = uid then put_task_row now b t else t)
                      (tasks d) \<rparr>"
  by (simp add: put_task_def Let_def)

lemma delete_task_cases:
  "snd (delete_task uid tid d) = d
   \<or> snd (delete_task uid tid d) =
       d\<lparr> tasks := filter (\<lambda>t. \<not> (t_id t = tid \<and> t_user_id t = uid)) (tasks d) \<rparr>"
  by (simp add: delete_task_def Let_def)

lemma stays_archived_map:
  assumes "stays_archived k d"
    and "\<And>t. t_id (f t) = t_id t" and "\<And>t. t_archived t \<Longrightarrow> t_archived (f t)"
  shows "stays_archived k (d\<lparr> tasks := map (\<lambda>t. if P t then f t else t) (tasks d) \<rparr>)"
  using assms by (auto simp: stays_archived_def list_all_iff)

lemma stays_archived_filter:
  "stays_archived k d \<Longrightarrow> stays_archived k (d\<lparr> tasks := filter P (tasks d) \<rparr>)"
  by (auto simp: stays_archived_def list_all_iff)

lemma stays_archived_frame:
  "stays_archived k d \<Longrightarrow> tasks d' = tasks d \<and> task_seq d' = task_seq d \<Longrightarrow> stays_archived k d'"
  by (simp add: stays_archived_def)

lemma apply_request_stays_archived:
  assumes "stays_archived k d"
  shows "stays_archived k (apply_request up now weekStart code uid rq d)"
proof (cases rq)
  case (PostTask b)
  with assms show ?thesis
    by (auto simp: stays_archived_def post_task_def Let_def list_all_iff)
next
  case (PutTask tid b)
  have "stays_archived k (d\<lparr> tasks := map (\<lambda>t. if t_id t = tid \<and> t_user_id t = uid
                                                 then put_task_row now b t else t) (tasks d) \<rparr>)"
    by (rule stays_archived_map [OF assms]) (simp_all add: put_task_row_fields)
  with assms put_task_cases [of now uid tid b d] show ?thesis
    unfolding PutTask by auto
next
  case (DeleteTask tid)
  with assms delete_task_cases [of uid tid d] stays_archived_filter [OF assms] show ?thesis
    by auto
next
  case ArchiveTasks
  have "stays_archived k (d\<lparr> tasks := map (\<lambda>t. if archive_sel weekStart uid t
                           then t\<lparr> t_archived := True, t_archived_at := Some now \<rparr>
                           else t) (tasks d) \<rparr>)"
    by (rule stays_archived_map [OF assms]) simp_all
  then show ?thesis unfolding ArchiveTasks by (simp add: archive_tasks_result)
next
  case (CreateFamily name)
  show ?thesis unfolding CreateFamily apply_request.simps
    by (rule stays_archived_frame [OF assms family_requests_tasks(1)])
next
  case (JoinFamily c)
  show ?thesis unfolding JoinFamily apply_request.simps
    by (rule stays_archived_frame [OF assms family_requests_tasks(2)])
next
  case (PostFamilyTask fb)
  show ?thesis unfolding PostFamilyTask apply_request.simps
    by (rule stays_archived_frame [OF assms family_requests_tasks(3)])
next
  case (PutFamilyTask tid fb)
  show ?thesis unfolding PutFamilyTask apply_request.simps
    by (rule stays_archived_frame [OF assms family_requests_tasks(4)])
next
  case (DeleteFamilyTask tid)
  show ?thesis unfolding DeleteFamilyTask apply_request.simps
    by (rule stays_archived_frame [OF assms family_requests_tasks(5)])
qed

lemma run_requests_stays_archived:
  "stays_archived k d \<Longrightarrow> stays_archived k (run_requests up rs d)"
  by (induction up rs d rule: run_requests.induct) (simp_all add: apply_request_stays_archived)

lemma archived_task_stays_archived:
  assumes "task_ids_fresh d" "t \<in> set (tasks d)" "t_archived t"
  shows "stays_archived (t_id t) d"
proof -
  have "t' = t" if "t' \<in> set (tasks d)" "t_id t' = t_id t" for t'
    using assms(1,2) that by (auto simp: task_ids_fresh_def distinct_map inj_on_def)
  with assms show ?thesis
    by (auto simp: stays_archived_def task_ids_fresh_def list_all_iff)
qed


lemma task_ids_fresh_map:
  assumes "task_ids_fresh d" and "\<And>t. t_id (f t) = t_id t"
  shows "task_ids_fresh (d\<lparr> tasks := map (\<lambda>t. if P t then f t else t) (tasks d) \<rparr>)"
proof -
  have "map t_id (map (\<lambda>t. if P t then f t else t) (tasks d)) = map t_id (tasks d)"
    by (induction "tasks d") (simp_all add: assms(2))
  moreover have "\<forall>t \<in> set (map (\<lambda>t. if P t then f t else t) (tasks d)). t_id t < task_seq d"
    using assms(1) by (auto simp: task_ids_fresh_def list_all_iff assms(2))
  ultimately show ?thesis
    using assms(1) by (simp add: task_ids_fresh_def list_all_iff del: map_map set_map)
qed

lemma task_ids_fresh_filter:
  "task_ids_fresh d \<Longrightarrow> task_ids_fresh (d\<lparr> tasks := filter P (tasks d) \<rparr>)"
  by (simp add: task_ids_fresh_def list_all_iff distinct_map_filter)

lemma task_ids_fresh_frame:
  "task_ids_fresh d \<Longrightarrow> tasks d' = tasks d \<and> task_seq d' = task_seq d \<Longrightarrow> task_ids_fresh d'"
  by (simp add: task_ids_fresh_def)

lemma apply_request_ids_fresh:
  assumes "task_ids_fresh d"
  shows "task_ids_fresh (apply_request up now weekStart code uid rq d)"
proof (cases rq)
  case (PostTask b)
  with assms show ?thesis
    by (fastforce simp: task_ids_fresh_def post_task_def Let_def list_all_iff)
next
  case (PutTask tid b)
  have "task_ids_fresh (d\<lparr> tasks := map (\<lambda>t. if t_id t = tid \<and> t_user_id t = uid
                                                 then put_task_row now b t else t) (tasks d) \<rparr>)"
    by (rule task_ids_fresh_map [OF assms]) (simp add: put_task_row_fields)
  with assms put_task_cases [of now uid tid b d] show ?thesis
    unfolding PutTask by auto
next
  case (DeleteTask tid)
  with assms delete_task_cases [of uid tid d] task_ids_fresh_filter [OF assms] show ?thesis
    by auto
next
  case ArchiveTasks
  have "task_ids_fresh (d\<lparr> tasks := map (\<lambda>t. if archive_sel weekStart uid t
                           then t\<lparr> t_archived := True, t_archived_at := Some now \<rparr>
                           else t) (tasks d) \<rparr>)"
    by (rule task_ids_fresh_map [OF assms]) simp
  then show ?thesis unfolding ArchiveTasks by (simp add: archive_tasks_result)
next
  case (CreateFamily name)
  show ?thesis unfolding CreateFamily apply_request.simps
    by (rule task_ids_fresh_frame [OF assms family_requests_tasks(1)])
next
  case (JoinFamily c)
  show ?thesis unfolding JoinFamily apply_request.simps
    by (rule task_ids_fresh_frame [OF assms family_requests_tasks(2)])
next
  case (PostFamilyTask fb)
  show ?thesis unfolding PostFamilyTask apply_request.simps
    by (rule task_ids_fresh_frame [OF assms family_requests_tasks(3)])
next
  case (PutFamilyTask tid fb)
  show ?thesis unfolding PutFamilyTask apply_request.simps
    by (rule task_ids_fresh_frame [OF assms family_requests_tasks(4)])
next
  case (DeleteFamilyTask tid)
  show ?thesis unfolding DeleteFamilyTask apply_request.simps
    by (rule task_ids_fresh_frame [OF assms family_requests_tasks(5)])
qed

lemma run_requests_ids_fresh:
  "task_ids_fresh d \<Longrightarrow> task_ids_fresh (run_requests up rs d)"
  by (induction up rs d rule: run_requests.induct) (simp_all add: apply_request_ids_fresh)

lemma archive_tasks_store:
  "snd (archive_tasks now weekStart uid d) =
     d\<lparr> tasks :=
          map (\<lambda>t. if t_user_id t = uid \<and> \<not> t_archived t \<and> t_week_start t < iso_date weekStart - 7
                    then t\<lparr> t_archived := True, t_archived_at := Some now \<rparr> else t) (tasks d) \<rparr>"
  by (simp add: archive_tasks_result archive_sel_fun)

text \<open>
  Claim C5. The archive request marks as archived, and stamps with the current time,
  exactly the user's unarchived tasks whose week bucket is before the previous week's
  bucket (the date seven days before the current week start) and leaves every other row
  and table as it was; its count is the number of those tasks; repeated at once it
  archives nothing and changes nothing. Where task ids are unique, as they are in every
  store reached from the empty one, no history of requests makes an archived task
  unarchived: whatever row still carries its id is archived.
\<close>

theorem archive_old_tasks:
  "snd (archive_tasks now weekStart uid d) =
     d\<lparr> tasks :=
          map (\<lambda>t. if t_user_id t = uid \<and> \<not> t_archived t \<and> t_week_start t < iso_date weekStart - 7
                    then t\<lparr> t_archived := True, t_archived_at := Some now \<rparr> else t) (tasks d) \<rparr>
   \<and> fst (archive_tasks now weekStart uid d) =
       length (filter (\<lambda>t. t_user_id t = uid \<and> \<not> t_archived t
                            \<and> t_week_start t < iso_date weekStart - 7) (tasks d))
   \<and> archive_tasks now' weekStart uid (snd (archive_tasks now weekStart uid d)) =
       (0, snd (archive_tasks now weekStart uid d))
   \<and> (task_ids_fresh d \<and> t \<in> set (tasks d) \<and> t_archived t \<longrightarrow>
        list_all (\<lambda>t'. t_id t' = t_id t \<longrightarrow> t_archived t') (tasks (run_requests up rs d)))
   \<and> task_ids_fresh (run_requests up rs init_db)"
proof (intro conjI impI)
  assume "task_ids_fresh d \<and> t \<in> set (tasks d) \<and> t_archived t"
  then have "stays_archived (t_id t) d" by (simp add: archived_task_stays_archived)
  then have "stays_archived (t_id t) (run_requests up rs d)" by (rule run_requests_stays_archived)
  then show "list_all (\<lambda>t'. t_id t' = t_id t \<longrightarrow> t_archived t') (tasks (run_requests up rs d))"
    by (simp add: stays_archived_def)
next
  have "task_ids_fresh init_db" by (simp add: task_ids_fresh_def init_db_def)
  then show "task_ids_fresh (run_requests up rs init_db)" by (rule run_requests_ids_fresh)
qed (rule archive_tasks_store archive_tasks_count archive_tasks_twice)+

lemma ex_iso_date: "iso_date 1209600000 = 14"
  by (simp add: iso_date_def ms_per_day_def)

lemma ex_archive_store:
  "snd (archive_tasks 900 1209600000 1 example_db) =
     example_db\<lparr> tasks :=
       [example_task 1 1 1 ''pending'' 14 100,
        example_task 2 1 3 ''completed'' 14 200,
        (example_task 3 1 3 ''pending'' 0 300)\<lparr> t_archived := True, t_archived_at := Some 900 \<rparr>,
        example_task 4 2 2 ''pending'' 14 400] \<rparr>"
  unfolding archive_tasks_store ex_iso_date
  by (simp add: example_db_def example_task_def)

lemma ex_ids_fresh: "task_ids_fresh example_db"
  by (simp add: task_ids_fresh_def example_db_def example_task_def)

theorem archive_old_tasks_witness:
  "fst (archive_tasks 900 1209600000 1 example_db) = 1
   \<and> archive_tasks 901 1209600000 1 (snd (archive_tasks 900 1209600000 1 example_db)) =
       (0, snd (archive_tasks 900 1209600000 1 example_db))
   \<and> list_all (\<lambda>t'. t_id t' = 3 \<longrightarrow> t_archived t')
       (tasks (run_requests ascii_upper [(950, 1209600000, ''XYZ789'', 1, PutTask 3 example_done_body)]
                 (snd (archive_tasks 900 1209600000 1 example_db))))"
proof -
  let ?d1 = "snd (archive_tasks 900 1209600000 1 example_db)"
  let ?t = "(example_task 3 1 3 ''pending'' 0 300)\<lparr> t_archived := True, t_archived_at := Some 900 \<rparr>"
  have "?d1 = apply_request ascii_upper 900 1209600000 [] 1 ArchiveTasks example_db" by simp
  then have fresh: "task_ids_fresh ?d1"
    by (simp only: apply_request_ids_fresh [OF ex_ids_fresh])
  have mem: "?t \<in> set (tasks ?d1)" unfolding ex_archive_store by simp
  have arch: "t_archived ?t" by simp
  have tid: "t_id ?t = 3" by (simp add: example_task_def)
  have cnt: "length (filter (\<lambda>t. t_user_id t = 1 \<and> \<not> t_archived t
                            \<and> t_week_start t < iso_date 1209600000 - 7) (tasks example_db)) = 1"
    unfolding ex_iso_date by (simp add: example_db_def example_task_def)
  note A = archive_old_tasks [of 900 1209600000 1 example_db 901]
  note B = archive_old_tasks [of 900 1209600000 1 ?d1 901 ?t ascii_upper
      "[(950, 1209600000, ''XYZ789'', 1, PutTask 3 example_done_body)]"]
  have c1: "fst (archive_tasks 900 1209600000 1 example_db) = 1"
    using A [THEN conjunct2, THEN conjunct1] cnt by simp
  have c2: "archive_tasks 901 1209600000 1 ?d1 = (0, ?d1)"
    by (rule A [THEN conjunct2, THEN conjunct2, THEN conjunct1])
  have "list_all (\<lambda>t'. t_id t' = t_id ?t \<longrightarrow> t_archived t')
       (tasks (run_requests ascii_upper [(950, 1209600000, ''XYZ789'', 1, PutTask 3 example_done_body)] ?d1))"
    using B [THEN conjunct2, THEN conjunct2, THEN conjunct2, THEN conjunct1] fresh mem arch
    by blast
  then have c3: "list_all (\<lambda>t'. t_id t' = 3 \<longrightarrow> t_archived t')
       (tasks (run_requests ascii_upper [(950, 1209600000, ''XYZ789'', 1, PutTask 3 example_done_body)] ?d1))"
    unfolding tid .
  from c1 c2 c3 show ?thesis by blast
qed

subsection \<open>Family tasks: who may update and delete\<close>

lemma put_lookup_set:
  "set (put_family_task_lookup d taskId uid) =
     {(ft, f_created_by f) | ft f fm.
        ft \<in> set (family_tasks d) \<and> f \<in> set (families d) \<and> fm \<in> set (family_members d)
        \<and> ft_family_id ft = f_id f \<and> f_id f = m_family_id fm \<and> ft_id ft = taskId
        \<and> m_user_id fm = uid}"
  unfolding put_family_task_lookup_def by (auto split: if_splits) 

lemma put_lookup_empty_iff:
  "(put_family_task_lookup d taskId uid = []) = (\<not> task_in_requesters_family d taskId uid)"
proof -
  have "(put_family_task_lookup d taskId uid = []) = (set (put_family_task_lookup d taskId uid) = {})"
    by simp
  also have "\<dots> = (\<not> task_in_requesters_family d taskId uid)"
    unfolding put_lookup_set task_in_requesters_family_def is_member_def list_ex_iff
    by (auto; metis)
  finally show ?thesis .
qed

lemma delete_lookup_empty_iff:
  "(delete_family_task_lookup d taskId uid = []) = (\<not> is_leader_of_task d taskId uid)"
proof -
  have "set (delete_family_task_lookup d taskId uid) =
     {ft_id ft | ft f. ft \<in> set (family_tasks d) \<and> f \<in> set (families d)
        \<and> ft_family_id ft = f_id f \<and> ft_id ft = taskId \<and> f_created_by f = uid}"
    unfolding delete_family_task_lookup_def by (auto split: if_splits)
  moreover have "(delete_family_task_lookup d taskId uid = []) =
      (set (delete_family_task_lookup d taskId uid) = {})" by simp
  ultimately show ?thesis
    unfolding is_leader_of_task_def list_ex_iff by (auto; metis)
qed

lemma put_lookup_head:
  assumes "put_family_task_lookup d taskId uid = (task, leader) # rest"
  shows "task \<in> set (family_tasks d)" "ft_id task = taskId"
    "\<exists>f \<in> set (families d). f_id f = ft_family_id task \<and> f_created_by f = leader"
proof -
  have "(task, leader) \<in> set (put_family_task_lookup d taskId uid)" using assms by simp
  then obtain f fm where "task \<in> set (family_tasks d)" "f \<in> set (families d)"
    "ft_family_id task = f_id f" "ft_id task = taskId" "leader = f_created_by f"
    unfolding put_lookup_set by blast
  then show "task \<in> set (family_tasks d)" "ft_id task = taskId"
    "\<exists>f \<in> set (families d). f_id f = ft_family_id task \<and> f_created_by f = leader"
    by auto
qed

lemma put_family_task_not_found:
  "\<not> task_in_requesters_family d taskId uid \<Longrightarrow>
   put_family_task now uid taskId fb d = (Inl (Reject 404 ''Task not found''), d)"
  by (simp add: put_family_task_def put_lookup_empty_iff [symmetric])

lemma put_family_task_forbidden:
  assumes "task_in_requesters_family d taskId uid"
    and "\<not> is_leader_of_task d taskId uid" and "\<not> is_assignee d taskId uid"
  shows "put_family_task now uid taskId fb d = (Inl (Reject 403 update_forbidden), d)"
proof -
  from assms(1) obtain task leader rest
    where l: "put_family_task_lookup d taskId uid = (task, leader) # rest"
    using put_lookup_empty_iff [of d taskId uid]
    by (cases "put_family_task_lookup d taskId uid") auto
  from put_lookup_head [OF l] assms(2,3) have "leader \<noteq> uid \<and> ft_assigned_to task \<noteq> Some uid"
    unfolding is_leader_of_task_def is_assignee_def list_ex_iff by blast
  then show ?thesis
    by (simp add: put_family_task_def l)
qed

lemma put_family_task_allowed:
  assumes "fst (put_family_task now uid taskId fb d) = Inr r"
  shows "task_in_requesters_family d taskId uid
         \<and> (is_leader_of_task d taskId uid \<or> is_assignee d taskId uid)"
proof (rule ccontr)
  assume n: "\<not> (task_in_requesters_family d taskId uid
         \<and> (is_leader_of_task d taskId uid \<or> is_assignee d taskId uid))"
  show False
  proof (cases "task_in_requesters_family d taskId uid")
    case False
    from put_family_task_not_found [OF this] assms show False by simp
  next
    case True
    with n have "\<not> is_leader_of_task d taskId uid" "\<not> is_assignee d taskId uid" by auto
    from put_family_task_forbidden [OF True this] assms show False by simp
  qed
qed

lemma delete_family_task_result:
  "delete_family_task uid taskId d =
     (if is_leader_of_task d taskId uid
      then (Inr ''Task deleted successfully'',
            d\<lparr> family_tasks := filter (\<lambda>t. ft_id t \<noteq> taskId) (family_tasks d) \<rparr>)
      else (Inl (Reject 404 delete_refused), d))"
  by (simp add: delete_family_task_def delete_lookup_empty_iff)


text \<open>
  Claim C8. A family-task update answers 404 "Task not found" when the task is not a
  task of a family of which the requester is a member, and 403 when it is but the
  requester neither leads that family nor is the task's assignee; in both cases nothing
  is written. A family-task delete answers with the one 404 message "Task not found or
  you don't have permission to delete it" whenever the requester does not lead the
  family that owns the task (which includes that there is no such task), and deletes
  the task otherwise.
\<close>

theorem family_task_update_delete_errors:
  "(\<not> task_in_requesters_family d taskId uid \<longrightarrow>
      put_family_task now uid taskId fb d = (Inl (Reject 404 ''Task not found''), d))
   \<and> (task_in_requesters_family d taskId uid \<and> \<not> is_leader_of_task d taskId uid
       \<and> \<not> is_assignee d taskId uid \<longrightarrow>
      put_family_task now uid taskId fb d = (Inl (Reject 403 update_forbidden), d))
   \<and> (\<not> is_leader_of_task d taskId uid \<longrightarrow>
      delete_family_task uid taskId d = (Inl (Reject 404 delete_refused), d))
   \<and> (is_leader_of_task d taskId uid \<longrightarrow>
      delete_family_task uid taskId d =
        (Inr ''Task deleted successfully'',
         d\<lparr> family_tasks := filter (\<lambda>t. ft_id t \<noteq> taskId) (family_tasks d) \<rparr>))"
  by (simp add: put_family_task_not_found put_family_task_forbidden delete_family_task_result)

lemma ex_roles:
  "\<not> task_in_requesters_family example_db 1 3"
  "task_in_requesters_family example_db 2 2"
  "\<not> is_leader_of_task example_db 2 2"
  "\<not> is_assignee example_db 2 2"
  "is_leader_of_task example_db 2 1"
  by (simp_all add: task_in_requesters_family_def is_leader_of_task_def is_assignee_def
      is_member_def example_db_def example_family_def example_chore_def example_errand_def)

theorem family_task_update_delete_errors_witness:
  "put_family_task 900 3 1 example_done_family_body example_db =
     (Inl (Reject 404 ''Task not found''), example_db)
   \<and> put_family_task 900 2 2 example_done_family_body example_db =
     (Inl (Reject 403 update_forbidden), example_db)
   \<and> delete_family_task 2 2 example_db = (Inl (Reject 404 delete_refused), example_db)
   \<and> delete_family_task 1 2 example_db =
     (Inr ''Task deleted successfully'',
      example_db\<lparr> family_tasks := filter (\<lambda>t. ft_id t \<noteq> 2) (family_tasks example_db) \<rparr>)"
  using family_task_update_delete_errors [of example_db 1 3 900 example_done_family_body]
    family_task_update_delete_errors [of example_db 2 2 900 example_done_family_body]
    family_task_update_delete_errors [of example_db 2 1 900 example_done_family_body]
    ex_roles
  by blast

lemma new_family_task_fields:
  "ft_family_id (new_family_task now weekStart uid family fb d) = f_id family"
  "ft_created_by (new_family_task now weekStart uid family fb d) = uid"
  "ft_assigned_to (new_family_task now weekStart uid family fb d) = fb_assigned_to fb"
  "ft_id (new_family_task now weekStart uid family fb d) = family_task_seq d"
  by (simp_all add: new_family_task_def)

lemma requester_families_member:
  "family \<in> set (requester_families d uid) \<Longrightarrow>
   family \<in> set (families d) \<and> is_member d (f_id family) uid"
  unfolding requester_families_def is_member_def list_ex_iff by (auto split: if_splits)

lemma post_family_task_success:
  assumes "post_family_task now weekStart uid fb d = (Inr r, d')"
  shows "\<exists>family \<in> set (requester_families d uid).
           f_created_by family = uid \<and> truthy_nat (fb_assigned_to fb)
           \<and> d' = insert_family_task (new_family_task now weekStart uid family fb d) d"
proof (cases "requester_families d uid")
  case Nil
  with assms show ?thesis
    by (simp add: post_family_task_def split: if_splits)
next
  case (Cons family rest)
  with assms show ?thesis
    by (simp add: post_family_task_def Let_def split: if_splits)
qed

text \<open>
  Claim C7, as amended. The create handler accepts a family task only from the leader
  of a family of which the requester is a member, and stores it for that family with
  the assignee the request names, which is a non-zero user id and is not compared with
  the family's members. A family-task update succeeds only for a task of a family of
  the requester, and only when the requester leads that family or is the task's
  assignee.
\<close>

theorem family_task_create_and_edit:
  "(post_family_task now weekStart uid fb d = (Inr r, d') \<longrightarrow>
      (\<exists>family \<in> set (families d).
          f_created_by family = uid \<and> is_member d (f_id family) uid
          \<and> truthy_nat (fb_assigned_to fb)
          \<and> (\<exists>row. family_tasks d' = family_tasks d @ [row]
                \<and> ft_family_id row = f_id family \<and> ft_created_by row = uid
                \<and> ft_assigned_to row = fb_assigned_to fb)))
   \<and> (fst (put_family_task now uid taskId fb' d) = Inr r' \<longrightarrow>
        task_in_requesters_family d taskId uid
        \<and> (is_leader_of_task d taskId uid \<or> is_assignee d taskId uid))"
proof (rule conjI; rule impI)
  assume a: "post_family_task now weekStart uid fb d = (Inr r, d')"
  from post_family_task_success [OF a]
  obtain family where f: "family \<in> set (requester_families d uid)" "f_created_by family = uid"
    "truthy_nat (fb_assigned_to fb)"
    and d': "d' = insert_family_task (new_family_task now weekStart uid family fb d) d"
    by blast
  have "family_tasks d' = family_tasks d @ [new_family_task now weekStart uid family fb d]"
    by (simp add: d' insert_family_task_def)
  with f requester_families_member [OF f(1)] new_family_task_fields [of now weekStart uid family fb d]
  show "\<exists>family \<in> set (families d).
          f_created_by family = uid \<and> is_member d (f_id family) uid
          \<and> truthy_nat (fb_assigned_to fb)
          \<and> (\<exists>row. family_tasks d' = family_tasks d @ [row]
                \<and> ft_family_id row = f_id family \<and> ft_created_by row = uid
                \<and> ft_assigned_to row = fb_assigned_to fb)"
    by blast
next
  assume "fst (put_family_task now uid taskId fb' d) = Inr r'"
  then show "task_in_requesters_family d taskId uid
        \<and> (is_leader_of_task d taskId uid \<or> is_assignee d taskId uid)"
    by (rule put_family_task_allowed)
qed

lemma ex_requester_families: "requester_families example_db 1 = [example_family]"
  by (simp add: requester_families_def example_db_def example_family_def)

lemma ex_lawn_username:
  "task_with_username (insert_family_task example_lawn example_db) (ft_id example_lawn) =
     Some (example_lawn, ''carol'')"
  by (simp add: task_with_username_def insert_family_task_def example_db_def example_lawn_def
      new_family_task_def example_outsider_body_def example_chore_def example_errand_def)

lemma ex_post_family_task:
  "post_family_task 900 1209600000 1 example_outsider_body example_db =
     (Inr (Some (example_lawn, ''carol'')), insert_family_task example_lawn example_db)"
proof -
  have "f_created_by example_family = 1" by (simp add: example_family_def)
  moreover have "truthy_str (fb_title example_outsider_body)"
    "trim (case fb_title example_outsider_body of Some s \<Rightarrow> s | None \<Rightarrow> []) \<noteq> []"
    "truthy_nat (fb_assigned_to example_outsider_body)"
    by (simp_all add: example_outsider_body_def trim_def white_space_def)
  ultimately have "post_family_task 900 1209600000 1 example_outsider_body example_db =
     (Inr (task_with_username
             (insert_family_task
                (new_family_task 900 1209600000 1 example_family example_outsider_body example_db)
                example_db)
             (ft_id (new_family_task 900 1209600000 1 example_family example_outsider_body
                       example_db))),
      insert_family_task
        (new_family_task 900 1209600000 1 example_family example_outsider_body example_db)
        example_db)"
    unfolding post_family_task_def ex_requester_families by (simp add: Let_def)
  then show ?thesis
    unfolding example_lawn_def [symmetric] ex_lawn_username .
qed

text \<open>
  The claim as the specification states it fails: alice, who leads family 1, creates a
  task for carol (user 3), who is in no family. The handler accepts it and stores it for
  family 1.
\<close>

theorem assignee_outside_family_counterexample:
  "post_family_task 900 1209600000 1 example_outsider_body example_db =
     (Inr (Some (example_lawn, ''carol'')), insert_family_task example_lawn example_db)
   \<and> family_tasks (insert_family_task example_lawn example_db) =
       [example_chore, example_errand, example_lawn]
   \<and> ft_family_id example_lawn = 1
   \<and> ft_assigned_to example_lawn = Some 3
   \<and> \<not> is_member (insert_family_task example_lawn example_db) 1 3"
proof -
  have "family_tasks (insert_family_task example_lawn example_db) =
       [example_chore, example_errand, example_lawn]"
    by (simp add: insert_family_task_def example_db_def)
  moreover have "ft_family_id example_lawn = 1" "ft_assigned_to example_lawn = Some 3"
    by (simp_all add: example_lawn_def new_family_task_def example_family_def
        example_outsider_body_def)
  moreover have "\<not> is_member (insert_family_task example_lawn example_db) 1 3"
    by (simp add: is_member_def insert_family_task_def example_db_def)
  ultimately show ?thesis using ex_post_family_task by blast
qed

theorem family_task_create_and_edit_witness:
  "truthy_nat (fb_assigned_to example_outsider_body)
   \<and> task_in_requesters_family example_db 1 2
   \<and> (is_leader_of_task example_db 1 2 \<or> is_assignee example_db 1 2)"
proof -
  obtain r' where r': "fst (put_family_task 900 2 1 example_done_family_body example_db) = Inr r'"
    using ex_put_family_task_ok by blast
  from family_task_create_and_edit [of 900 1209600000 1 example_outsider_body example_db
      "Some (example_lawn, ''carol'')" "insert_family_task example_lawn example_db"]
    ex_post_family_task
  have 1: "truthy_nat (fb_assigned_to example_outsider_body)" by blast
  from family_task_create_and_edit [of 900 1209600000 2 example_outsider_body example_db
      _ _ 1 example_done_family_body r'] r'
  have 2: "task_in_requesters_family example_db 1 2
   \<and> (is_leader_of_task example_db 1 2 \<or> is_assignee example_db 1 2)" by blast
  from 1 2 show ?thesis by blast
qed

subsection \<open>Completion time and status\<close>

lemma post_task_status_completed:
  "b_status b = Some ''completed'' \<Longrightarrow>
   t_status (fst (post_task now weekStart uid b d)) = Some ''completed''
   \<and> t_completed_at (fst (post_task now weekStart uid b d)) = Some now"
  by (simp add: post_task_def Let_def)

lemma post_task_status_other:
  "b_status b \<noteq> Some ''completed'' \<Longrightarrow>
   t_status (fst (post_task now weekStart uid b d)) \<noteq> Some ''completed''
   \<and> t_completed_at (fst (post_task now weekStart uid b d)) = None"
  by (cases "b_status b") (auto simp: post_task_def Let_def)

lemma filter_empty_list_ex: "(filter P xs = []) = (\<not> list_ex P xs)"
  by (simp add: filter_empty_conv list_ex_iff)

lemma put_task_not_found:
  "\<not> list_ex (\<lambda>t. t_id t = tid \<and> t_user_id t = uid) (tasks d) \<Longrightarrow>
   put_task now uid tid b d = (Inl (Reject 404 ''Task not found''), d)"
  by (simp add: put_task_def filter_empty_list_ex)

lemma put_task_found_store:
  "list_ex (\<lambda>t. t_id t = tid \<and> t_user_id t = uid) (tasks d) \<Longrightarrow>
   snd (put_task now uid tid b d) =
     d\<lparr> tasks := map (\<lambda>t. if t_id t = tid \<and> t_user_id t = uid then put_task_row now b t else t)
                    (tasks d) \<rparr>"
  by (simp add: put_task_def filter_empty_list_ex Let_def)

lemma put_task_found_reply:
  assumes "list_ex (\<lambda>t. t_id t = tid \<and> t_user_id t = uid) (tasks d)"
  shows "\<exists>r. fst (put_task now uid tid b d) = Inr (Some r)
           \<and> r \<in> set (tasks (snd (put_task now uid tid b d)))
           \<and> t_id r = tid \<and> t_user_id r = uid \<and> t_status r = b_status b
           \<and> t_completed_at r = (if b_status b = Some ''completed'' then Some now else None)"
proof -
  let ?sel = "\<lambda>t. t_id t = tid \<and> t_user_id t = uid"
  let ?ts = "map (\<lambda>t. if ?sel t then put_task_row now b t else t) (tasks d)"
  from assms obtain t0 where t0: "t0 \<in> set (tasks d)" "?sel t0"
    by (auto simp: list_ex_iff)
  then have "put_task_row now b t0 \<in> set ?ts" by force
  moreover have "?sel (put_task_row now b t0)" using t0 by (simp add: put_task_row_fields)
  ultimately have "filter ?sel ?ts \<noteq> []" by (auto simp: filter_empty_conv)
  then obtain r rest where l: "filter ?sel ?ts = r # rest"
    by (cases "filter ?sel ?ts") auto
  then have "r \<in> set (filter ?sel ?ts)" by simp
  then have r: "r \<in> set ?ts" "?sel r" by auto
  from set_map_if_cases [OF r(1)] r(2) obtain t1 where "r = put_task_row now b t1" by blast
  then have f: "t_status r = b_status b"
    "t_completed_at r = (if b_status b = Some ''completed'' then Some now else None)"
    by (simp_all add: put_task_row_fields)
  have "fst (put_task now uid tid b d) = Inr (Some r)"
    using assms l by (simp add: put_task_def filter_empty_list_ex Let_def)
  moreover have "r \<in> set (tasks (snd (put_task now uid tid b d)))"
    using r(1) by (simp add: put_task_found_store [OF assms])
  ultimately show ?thesis using r(2) f by blast
qed

lemma map_if_rows:
  assumes "ys = map (\<lambda>t. if P t then f t else t) xs"
  shows "length ys = length xs"
    and "i < length xs \<Longrightarrow> P (xs ! i) \<Longrightarrow> ys ! i = f (xs ! i)"
    and "i < length xs \<Longrightarrow> \<not> P (xs ! i) \<Longrightarrow> ys ! i = xs ! i"
  unfolding assms by simp_all

lemma put_family_task_success:
  assumes "family_ids_fresh d" and "task_in_requesters_family d tid uid"
    and "is_leader_of_task d tid uid \<or> is_assignee d tid uid"
  shows "put_family_task now uid tid fb d =
     (Inr (task_with_username
            (d\<lparr> family_tasks :=
                  map (\<lambda>t. if ft_id t = tid then put_family_task_row now fb t else t)
                    (family_tasks d) \<rparr>) tid),
      d\<lparr> family_tasks :=
           map (\<lambda>t. if ft_id t = tid then put_family_task_row now fb t else t)
             (family_tasks d) \<rparr>)"
proof -
  from assms(1) have dt: "distinct (map ft_id (family_tasks d))"
    and df: "distinct (map f_id (families d))"
    by (simp_all add: family_ids_fresh_def)
  from assms(2) obtain task leader rest
    where l: "put_family_task_lookup d tid uid = (task, leader) # rest"
    using put_lookup_empty_iff [of d tid uid]
    by (cases "put_family_task_lookup d tid uid") auto
  from put_lookup_head [OF l] obtain f where task: "task \<in> set (family_tasks d)" "ft_id task = tid"
    and f: "f \<in> set (families d)" "f_id f = ft_family_id task" "f_created_by f = leader"
    by blast
  have same_task: "t = task" if "t \<in> set (family_tasks d)" "ft_id t = tid" for t
    using dt task that by (auto simp: distinct_map inj_on_def)
  have same_family: "g = f" if "g \<in> set (families d)" "f_id g = f_id f" for g
    using df f(1) that by (auto simp: distinct_map inj_on_def)
  have "leader = uid \<or> ft_assigned_to task = Some uid"
  proof (rule disjE [OF assms(3)])
    assume "is_leader_of_task d tid uid"
    then obtain t g where "t \<in> set (family_tasks d)" "ft_id t = tid"
      "g \<in> set (families d)" "f_id g = ft_family_id t" "f_created_by g = uid"
      unfolding is_leader_of_task_def list_ex_iff by blast
    with same_task [of t] same_family [of g] f show ?thesis by auto
  next
    assume "is_assignee d tid uid"
    then obtain t where "t \<in> set (family_tasks d)" "ft_id t = tid" "ft_assigned_to t = Some uid"
      unfolding is_assignee_def list_ex_iff by blast
    with same_task [of t] show ?thesis by auto
  qed
  then show ?thesis
    unfolding put_family_task_def l by (auto simp: Let_def)
qed

lemma family_ids_fresh_frame:
  "family_ids_fresh d \<Longrightarrow>
   families d' = families d \<and> family_seq d' = family_seq d
   \<and> family_tasks d' = family_tasks d \<and> family_task_seq d' = family_task_seq d \<Longrightarrow>
   family_ids_fresh d'"
  by (simp add: family_ids_fresh_def)

lemma task_requests_family_frame:
  "families (snd (post_task now weekStart uid b d)) = families d
     \<and> family_seq (snd (post_task now weekStart uid b d)) = family_seq d
     \<and> family_tasks (snd (post_task now weekStart uid b d)) = family_tasks d
     \<and> family_task_seq (snd (post_task now weekStart uid b d)) = family_task_seq d"
  "families (snd (put_task now uid tid b d)) = families d
     \<and> family_seq (snd (put_task now uid tid b d)) = family_seq d
     \<and> family_tasks (snd (put_task now uid tid b d)) = family_tasks d
     \<and> family_task_seq (snd (put_task now uid tid b d)) = family_task_seq d"
  "families (snd (delete_task uid tid d)) = families d
     \<and> family_seq (snd (delete_task uid tid d)) = family_seq d
     \<and> family_tasks (snd (delete_task uid tid d)) = family_tasks d
     \<and> family_task_seq (snd (delete_task uid tid d)) = family_task_seq d"
  "families (snd (archive_tasks now weekStart uid d)) = families d
     \<and> family_seq (snd (archive_tasks now weekStart uid d)) = family_seq d
     \<and> family_tasks (snd (archive_tasks now weekStart uid d)) = family_tasks d
     \<and> family_task_seq (snd (archive_tasks now weekStart uid d)) = family_task_seq d"
  "families (snd (post_family_join up uid c d)) = families d
     \<and> family_seq (snd (post_family_join up uid c d)) = family_seq d
     \<and> family_tasks (snd (post_family_join up uid c d)) = family_tasks d
     \<and> family_task_seq (snd (post_family_join up uid c d)) = family_task_seq d"
proof -
  show "families (snd (post_task now weekStart uid b d)) = families d
     \<and> family_seq (snd (post_task now weekStart uid b d)) = family_seq d
     \<and> family_tasks (snd (post_task now weekStart uid b d)) = family_tasks d
     \<and> family_task_seq (snd (post_task now weekStart uid b d)) = family_task_seq d"
    by (simp add: post_task_def Let_def)
  show "families (snd (put_task now uid tid b d)) = families d
     \<and> family_seq (snd (put_task now uid tid b d)) = family_seq d
     \<and> family_tasks (snd (put_task now uid tid b d)) = family_tasks d
     \<and> family_task_seq (snd (put_task now uid tid b d)) = family_task_seq d"
    using put_task_cases [of now uid tid b d] by auto
  show "families (snd (delete_task uid tid d)) = families d
     \<and> family_seq (snd (delete_task uid tid d)) = family_seq d
     \<and> family_tasks (snd (delete_task uid tid d)) = family_tasks d
     \<and> family_task_seq (snd (delete_task uid tid d)) = family_task_seq d"
    using delete_task_cases [of uid tid d] by auto
  show "families (snd (archive_tasks now weekStart uid d)) = families d
     \<and> family_seq (snd (archive_tasks now weekStart uid d)) = family_seq d
     \<and> family_tasks (snd (archive_tasks now weekStart uid d)) = family_tasks d
     \<and> family_task_seq (snd (archive_tasks now weekStart uid d)) = family_task_seq d"
    by (simp add: archive_tasks_result)
  show "families (snd (post_family_join up uid c d)) = families d
     \<and> family_seq (snd (post_family_join up uid c d)) = family_seq d
     \<and> family_tasks (snd (post_family_join up uid c d)) = family_tasks d
     \<and> family_task_seq (snd (post_family_join up uid c d)) = family_task_seq d"
    by (cases c; cases "filter (\<lambda>f. f_invitation_code f = up (trim (the c))) (families d)")
       (simp_all add: post_family_join_def withTransaction_def join_family_tx_def insert_member_def)
qed

lemma create_family_ids_fresh:
  assumes "family_ids_fresh d"
  shows "family_ids_fresh (snd (post_family_create code uid name d))"
proof (cases "filter (\<lambda>m. m_user_id m = uid) (family_members d) = []")
  case False
  then show ?thesis using assms by (simp add: create_family_conflict)
next
  case True
  then have "snd (post_family_create code uid name d) =
      insert_member (family_seq d) uid
        (d\<lparr> families := families d @ [\<lparr> f_id = family_seq d, f_name = trim name,
                                           f_created_by = uid, f_invitation_code = code \<rparr>],
            family_seq := Suc (family_seq d) \<rparr>)"
    by (simp add: post_family_create_def withTransaction_def create_family_tx_def Let_def)
  with assms show ?thesis
    by (fastforce simp: family_ids_fresh_def insert_member_def list_all_iff)
qed

lemma post_family_task_ids_fresh:
  assumes "family_ids_fresh d"
  shows "family_ids_fresh (snd (post_family_task now weekStart uid fb d))"
proof -
  from post_family_task_cases [of now weekStart uid fb d]
  consider "snd (post_family_task now weekStart uid fb d) = d"
    | family where "snd (post_family_task now weekStart uid fb d) =
         insert_family_task (new_family_task now weekStart uid family fb d) d"
    by auto
  then show ?thesis
  proof cases
    case 1
    with assms show ?thesis by simp
  next
    case (2 family)
    with assms show ?thesis
      by (fastforce simp: family_ids_fresh_def insert_family_task_def new_family_task_fields
          list_all_iff)
  qed
qed

lemma put_family_task_cases:
  "snd (put_family_task now uid tid fb d) = d
   \<or> snd (put_family_task now uid tid fb d) =
       d\<lparr> family_tasks :=
            map (\<lambda>t. if ft_id t = tid then put_family_task_row now fb t else t)
              (family_tasks d) \<rparr>"
  by (simp add: put_family_task_def Let_def split: list.splits prod.splits)

lemma put_family_task_ids_fresh:
  assumes "family_ids_fresh d"
  shows "family_ids_fresh (snd (put_family_task now uid tid fb d))"
proof -
  let ?ts = "map (\<lambda>t. if ft_id t = tid then put_family_task_row now fb t else t) (family_tasks d)"
  have ids: "map ft_id ?ts = map ft_id (family_tasks d)"
    by (induction "family_tasks d") (simp_all add: put_family_task_row_fields)
  have "\<forall>t \<in> set ?ts. ft_id t < family_task_seq d"
    using assms by (auto simp: family_ids_fresh_def list_all_iff put_family_task_row_fields)
  with ids assms have "family_ids_fresh (d\<lparr> family_tasks := ?ts \<rparr>)"
    by (simp add: family_ids_fresh_def list_all_iff del: map_map set_map)
  with assms put_family_task_cases [of now uid tid fb d] show ?thesis by auto
qed

lemma delete_family_task_ids_fresh:
  assumes "family_ids_fresh d"
  shows "family_ids_fresh (snd (delete_family_task uid tid d))"
  using assms
  by (simp add: delete_family_task_def family_ids_fresh_def list_all_iff distinct_map_filter)

lemma apply_request_family_ids_fresh:
  assumes "family_ids_fresh d"
  shows "family_ids_fresh (apply_request up now weekStart code uid rq d)"
proof (cases rq)
  case (PostTask b)
  show ?thesis unfolding PostTask apply_request.simps
    by (rule family_ids_fresh_frame [OF assms task_requests_family_frame(1)])
next
  case (PutTask tid b)
  show ?thesis unfolding PutTask apply_request.simps
    by (rule family_ids_fresh_frame [OF assms task_requests_family_frame(2)])
next
  case (DeleteTask tid)
  show ?thesis unfolding DeleteTask apply_request.simps
    by (rule family_ids_fresh_frame [OF assms task_requests_family_frame(3)])
next
  case ArchiveTasks
  show ?thesis unfolding ArchiveTasks apply_request.simps
    by (rule family_ids_fresh_frame [OF assms task_requests_family_frame(4)])
next
  case (CreateFamily name)
  show ?thesis unfolding CreateFamily apply_request.simps
    by (rule create_family_ids_fresh [OF assms])
next
  case (JoinFamily c)
  show ?thesis unfolding JoinFamily apply_request.simps
    by (rule family_ids_fresh_frame [OF assms task_requests_family_frame(5)])
next
  case (PostFamilyTask fb)
  show ?thesis unfolding PostFamilyTask apply_request.simps
    by (rule post_family_task_ids_fresh [OF assms])
next
  case (PutFamilyTask tid fb)
  show ?thesis unfolding PutFamilyTask apply_request.simps
    by (rule put_family_task_ids_fresh [OF assms])
next
  case (DeleteFamilyTask tid)
  show ?thesis unfolding DeleteFamilyTask apply_request.simps
    by (rule delete_family_task_ids_fresh [OF assms])
qed

lemma run_requests_family_ids_fresh:
  "family_ids_fresh d \<Longrightarrow> family_ids_fresh (run_requests up rs d)"
  by (induction up rs d rule: run_requests.induct) (simp_all add: apply_request_family_ids_fresh)

lemma put_family_task_failure:
  "fst (put_family_task now uid tid fb d) = Inl e \<Longrightarrow> snd (put_family_task now uid tid fb d) = d"
  by (auto simp: put_family_task_def Let_def split: list.splits prod.splits if_splits)

text \<open>
  Claim C2. A personal task created with the status \<open>completed\<close> is stored as
  completed with the current time as its completion time; created with any other status
  (or none) it is stored as not completed with no completion time. A personal update
  succeeds exactly when the user owns a task with the id; it then gives the requested
  status to every such row and sets the completion time to the current time when that
  status is \<open>completed\<close> and to NULL otherwise, and leaves every other row as it was.
  A family update by the leader or the assignee of a task of the requester's family
  (ids being unique, as they are in every store reached from the empty one) succeeds
  and does the same to the family task; whenever a family update succeeds, the rows
  with the id carry the requested status and the matching completion time, and when it
  fails it writes nothing. So after each of these operations the completion time of a
  row they wrote is set if and only if its status is \<open>completed\<close>.
\<close>

theorem completed_at_iff_completed:
  "(b_status b = Some ''completed'' \<longrightarrow>
      t_status (fst (post_task now weekStart uid b d)) = Some ''completed''
      \<and> t_completed_at (fst (post_task now weekStart uid b d)) = Some now)
   \<and> (b_status b \<noteq> Some ''completed'' \<longrightarrow>
      t_status (fst (post_task now weekStart uid b d)) \<noteq> Some ''completed''
      \<and> t_completed_at (fst (post_task now weekStart uid b d)) = None)
   \<and> tasks (snd (post_task now weekStart uid b d)) =
       tasks d @ [fst (post_task now weekStart uid b d)]
   \<and> (list_ex (\<lambda>t. t_id t = tid \<and> t_user_id t = uid) (tasks d) \<longrightarrow>
        (\<exists>r. fst (put_task now uid tid b d) = Inr (Some r)
              \<and> r \<in> set (tasks (snd (put_task now uid tid b d)))
              \<and> t_id r = tid \<and> t_user_id r = uid \<and> t_status r = b_status b
              \<and> t_completed_at r =
                  (if b_status b = Some ''completed'' then Some now else None))
        \<and> length (tasks (snd (put_task now uid tid b d))) = length (tasks d)
        \<and> (\<forall>i < length (tasks d).
              (t_id (tasks d ! i) = tid \<and> t_user_id (tasks d ! i) = uid \<longrightarrow>
                 t_id (tasks (snd (put_task now uid tid b d)) ! i) = tid
                 \<and> t_user_id (tasks (snd (put_task now uid tid b d)) ! i) = uid
                 \<and> t_status (tasks (snd (put_task now uid tid b d)) ! i) = b_status b
                 \<and> t_completed_at (tasks (snd (put_task now uid tid b d)) ! i) =
                     (if b_status b = Some ''completed'' then Some now else None))
              \<and> (\<not> (t_id (tasks d ! i) = tid \<and> t_user_id (tasks d ! i) = uid) \<longrightarrow>
                 tasks (snd (put_task now uid tid b d)) ! i = tasks d ! i)))
   \<and> (\<not> list_ex (\<lambda>t. t_id t = tid \<and> t_user_id t = uid) (tasks d) \<longrightarrow>
        put_task now uid tid b d = (Inl (Reject 404 ''Task not found''), d))
   \<and> (family_ids_fresh d \<and> task_in_requesters_family d fid uid
       \<and> (is_leader_of_task d fid uid \<or> is_assignee d fid uid) \<longrightarrow>
        (\<exists>r. fst (put_family_task now uid fid fb d) = Inr r)
        \<and> length (family_tasks (snd (put_family_task now uid fid fb d))) =
            length (family_tasks d)
        \<and> (\<forall>i < length (family_tasks d).
              (ft_id (family_tasks d ! i) = fid \<longrightarrow>
                 ft_id (family_tasks (snd (put_family_task now uid fid fb d)) ! i) = fid
                 \<and> ft_status (family_tasks (snd (put_family_task now uid fid fb d)) ! i) =
                     fb_status fb
                 \<and> ft_completed_at (family_tasks (snd (put_family_task now uid fid fb d)) ! i) =
                     (if fb_status fb = Some ''completed'' then Some now else None))
              \<and> (ft_id (family_tasks d ! i) \<noteq> fid \<longrightarrow>
                 family_tasks (snd (put_family_task now uid fid fb d)) ! i =
                   family_tasks d ! i)))
   \<and> (fst (put_family_task now uid fid fb d) = Inr fr \<longrightarrow>
        (\<forall>t \<in> set (family_tasks (snd (put_family_task now uid fid fb d))). ft_id t = fid \<longrightarrow>
           ft_status t = fb_status fb
           \<and> ft_completed_at t =
               (if fb_status fb = Some ''completed'' then Some now else None)))
   \<and> (fst (put_family_task now uid fid fb d) = Inl e \<longrightarrow>
        snd (put_family_task now uid fid fb d) = d)
   \<and> family_ids_fresh (run_requests up rs init_db)"
proof -
  let ?sel = "\<lambda>t. t_id t = tid \<and> t_user_id t = uid"
  have create1: "b_status b = Some ''completed'' \<longrightarrow>
      t_status (fst (post_task now weekStart uid b d)) = Some ''completed''
      \<and> t_completed_at (fst (post_task now weekStart uid b d)) = Some now"
    using post_task_status_completed by blast
  have create2: "b_status b \<noteq> Some ''completed'' \<longrightarrow>
      t_status (fst (post_task now weekStart uid b d)) \<noteq> Some ''completed''
      \<and> t_completed_at (fst (post_task now weekStart uid b d)) = None"
    using post_task_status_other by blast
  have found: "list_ex ?sel (tasks d) \<longrightarrow>
        (\<exists>r. fst (put_task now uid tid b d) = Inr (Some r)
              \<and> r \<in> set (tasks (snd (put_task now uid tid b d)))
              \<and> t_id r = tid \<and> t_user_id r = uid \<and> t_status r = b_status b
              \<and> t_completed_at r =
                  (if b_status b = Some ''completed'' then Some now else None))
        \<and> length (tasks (snd (put_task now uid tid b d))) = length (tasks d)
        \<and> (\<forall>i < length (tasks d).
              (t_id (tasks d ! i) = tid \<and> t_user_id (tasks d ! i) = uid \<longrightarrow>
                 t_id (tasks (snd (put_task now uid tid b d)) ! i) = tid
                 \<and> t_user_id (tasks (snd (put_task now uid tid b d)) ! i) = uid
                 \<and> t_status (tasks (snd (put_task now uid tid b d)) ! i) = b_status b
                 \<and> t_completed_at (tasks (snd (put_task now uid tid b d)) ! i) =
                     (if b_status b = Some ''completed'' then Some now else None))
              \<and> (\<not> (t_id (tasks d ! i) = tid \<and> t_user_id (tasks d ! i) = uid) \<longrightarrow>
                 tasks (snd (put_task now uid tid b d)) ! i = tasks d ! i))"
  proof
    assume ex: "list_ex ?sel (tasks d)"
    have rows: "tasks (snd (put_task now uid tid b d)) =
        map (\<lambda>t. if ?sel t then put_task_row now b t else t) (tasks d)"
      by (simp add: put_task_found_store [OF ex])
    note m = map_if_rows [OF rows]
    show "(\<exists>r. fst (put_task now uid tid b d) = Inr (Some r)
              \<and> r \<in> set (tasks (snd (put_task now uid tid b d)))
              \<and> t_id r = tid \<and> t_user_id r = uid \<and> t_status r = b_status b
              \<and> t_completed_at r =
                  (if b_status b = Some ''completed'' then Some now else None))
        \<and> length (tasks (snd (put_task now uid tid b d))) = length (tasks d)
        \<and> (\<forall>i < length (tasks d).
              (t_id (tasks d ! i) = tid \<and> t_user_id (tasks d ! i) = uid \<longrightarrow>
                 t_id (tasks (snd (put_task now uid tid b d)) ! i) = tid
                 \<and> t_user_id (tasks (snd (put_task now uid tid b d)) ! i) = uid
                 \<and> t_status (tasks (snd (put_task now uid tid b d)) ! i) = b_status b
                 \<and> t_completed_at (tasks (snd (put_task now uid tid b d)) ! i) =
                     (if b_status b = Some ''completed'' then Some now else None))
              \<and> (\<not> (t_id (tasks d ! i) = tid \<and> t_user_id (tasks d ! i) = uid) \<longrightarrow>
                 tasks (snd (put_task now uid tid b d)) ! i = tasks d ! i))"
    proof (intro conjI allI impI)
      show "\<exists>r. fst (put_task now uid tid b d) = Inr (Some r)
              \<and> r \<in> set (tasks (snd (put_task now uid tid b d)))
              \<and> t_id r = tid \<and> t_user_id r = uid \<and> t_status r = b_status b
              \<and> t_completed_at r =
                  (if b_status b = Some ''completed'' then Some now else None)"
        by (rule put_task_found_reply [OF ex])
      show "length (tasks (snd (put_task now uid tid b d))) = length (tasks d)"
        by (rule m(1))
    next
      fix i assume i: "i < length (tasks d)"
        and s: "t_id (tasks d ! i) = tid \<and> t_user_id (tasks d ! i) = uid"
      have e: "tasks (snd (put_task now uid tid b d)) ! i = put_task_row now b (tasks d ! i)"
        using m(2) [of i] i s by simp
      show "t_id (tasks (snd (put_task now uid tid b d)) ! i) = tid"
        "t_user_id (tasks (snd (put_task now uid tid b d)) ! i) = uid"
        "t_status (tasks (snd (put_task now uid tid b d)) ! i) = b_status b"
        "t_completed_at (tasks (snd (put_task now uid tid b d)) ! i) =
                     (if b_status b = Some ''completed'' then Some now else None)"
        unfolding e using s by (simp_all add: put_task_row_fields)
    next
      fix i assume i: "i < length (tasks d)"
        and s: "\<not> (t_id (tasks d ! i) = tid \<and> t_user_id (tasks d ! i) = uid)"
      show "tasks (snd (put_task now uid tid b d)) ! i = tasks d ! i"
        using m(3) [of i] i s by simp
    qed
  qed
  have missing: "\<not> list_ex ?sel (tasks d) \<longrightarrow>
        put_task now uid tid b d = (Inl (Reject 404 ''Task not found''), d)"
    using put_task_not_found by blast
  have fam: "family_ids_fresh d \<and> task_in_requesters_family d fid uid
       \<and> (is_leader_of_task d fid uid \<or> is_assignee d fid uid) \<longrightarrow>
        (\<exists>r. fst (put_family_task now uid fid fb d) = Inr r)
        \<and> length (family_tasks (snd (put_family_task now uid fid fb d))) =
            length (family_tasks d)
        \<and> (\<forall>i < length (family_tasks d).
              (ft_id (family_tasks d ! i) = fid \<longrightarrow>
                 ft_id (family_tasks (snd (put_family_task now uid fid fb d)) ! i) = fid
                 \<and> ft_status (family_tasks (snd (put_family_task now uid fid fb d)) ! i) =
                     fb_status fb
                 \<and> ft_completed_at (family_tasks (snd (put_family_task now uid fid fb d)) ! i) =
                     (if fb_status fb = Some ''completed'' then Some now else None))
              \<and> (ft_id (family_tasks d ! i) \<noteq> fid \<longrightarrow>
                 family_tasks (snd (put_family_task now uid fid fb d)) ! i =
                   family_tasks d ! i))"
  proof
    assume h: "family_ids_fresh d \<and> task_in_requesters_family d fid uid
       \<and> (is_leader_of_task d fid uid \<or> is_assignee d fid uid)"
    then have run: "put_family_task now uid fid fb d =
       (Inr (task_with_username
            (d\<lparr> family_tasks :=
                  map (\<lambda>t. if ft_id t = fid then put_family_task_row now fb t else t)
                    (family_tasks d) \<rparr>) fid),
        d\<lparr> family_tasks :=
           map (\<lambda>t. if ft_id t = fid then put_family_task_row now fb t else t)
             (family_tasks d) \<rparr>)"
      by (simp add: put_family_task_success)
    have rows: "family_tasks (snd (put_family_task now uid fid fb d)) =
        map (\<lambda>t. if ft_id t = fid then put_family_task_row now fb t else t) (family_tasks d)"
      unfolding run by simp
    note m = map_if_rows [OF rows]
    show "(\<exists>r. fst (put_family_task now uid fid fb d) = Inr r)
        \<and> length (family_tasks (snd (put_family_task now uid fid fb d))) =
            length (family_tasks d)
        \<and> (\<forall>i < length (family_tasks d).
              (ft_id (family_tasks d ! i) = fid \<longrightarrow>
                 ft_id (family_tasks (snd (put_family_task now uid fid fb d)) ! i) = fid
                 \<and> ft_status (family_tasks (snd (put_family_task now uid fid fb d)) ! i) =
                     fb_status fb
                 \<and> ft_completed_at (family_tasks (snd (put_family_task now uid fid fb d)) ! i) =
                     (if fb_status fb = Some ''completed'' then Some now else None))
              \<and> (ft_id (family_tasks d ! i) \<noteq> fid \<longrightarrow>
                 family_tasks (snd (put_family_task now uid fid fb d)) ! i =
                   family_tasks d ! i))"
    proof (intro conjI allI impI)
      show "\<exists>r. fst (put_family_task now uid fid fb d) = Inr r"
        unfolding run by simp
      show "length (family_tasks (snd (put_family_task now uid fid fb d))) =
            length (family_tasks d)"
        by (rule m(1))
    next
      fix i assume i: "i < length (family_tasks d)" and s: "ft_id (family_tasks d ! i) = fid"
      have e: "family_tasks (snd (put_family_task now uid fid fb d)) ! i =
          put_family_task_row now fb (family_tasks d ! i)"
        using m(2) [of i] i s by simp
      show "ft_id (family_tasks (snd (put_family_task now uid fid fb d)) ! i) = fid"
        "ft_status (family_tasks (snd (put_family_task now uid fid fb d)) ! i) = fb_status fb"
        "ft_completed_at (family_tasks (snd (put_family_task now uid fid fb d)) ! i) =
                     (if fb_status fb = Some ''completed'' then Some now else None)"
        unfolding e using s by (simp_all add: put_family_task_row_fields)
    next
      fix i assume i: "i < length (family_tasks d)" and s: "ft_id (family_tasks d ! i) \<noteq> fid"
      show "family_tasks (snd (put_family_task now uid fid fb d)) ! i = family_tasks d ! i"
        using m(3) [of i] i s by simp
    qed
  qed
  have fam_rows: "fst (put_family_task now uid fid fb d) = Inr fr \<longrightarrow>
        (\<forall>t \<in> set (family_tasks (snd (put_family_task now uid fid fb d))). ft_id t = fid \<longrightarrow>
           ft_status t = fb_status fb
           \<and> ft_completed_at t =
               (if fb_status fb = Some ''completed'' then Some now else None))"
  proof (intro impI ballI)
    fix t
    assume ok: "fst (put_family_task now uid fid fb d) = Inr fr"
      and t: "t \<in> set (family_tasks (snd (put_family_task now uid fid fb d)))"
      and s: "ft_id t = fid"
    from ok have "put_family_task now uid fid fb d =
        (Inr fr, snd (put_family_task now uid fid fb d))"
      by (metis prod.collapse)
    from put_family_task_tasks [OF this] t
    have "t \<in> set (map (\<lambda>t. if ft_id t = fid then put_family_task_row now fb t else t)
                         (family_tasks d))"
      by simp
    from set_map_if_cases [OF this] s obtain t0 where e: "t = put_family_task_row now fb t0"
      by blast
    show "ft_status t = fb_status fb
           \<and> ft_completed_at t =
               (if fb_status fb = Some ''completed'' then Some now else None)"
      unfolding e by (simp add: put_family_task_row_fields)
  qed
  have fam_fail: "fst (put_family_task now uid fid fb d) = Inl e \<longrightarrow>
        snd (put_family_task now uid fid fb d) = d"
    using put_family_task_failure by blast
  have "family_ids_fresh init_db" by (simp add: family_ids_fresh_def init_db_def)
  then have reach: "family_ids_fresh (run_requests up rs init_db)"
    by (rule run_requests_family_ids_fresh)
  from create1 create2 post_task_stored [of now weekStart uid b d] found missing fam fam_rows
    fam_fail reach
  show ?thesis by (intro conjI)
qed

lemma ex_family_ids_fresh: "family_ids_fresh example_db"
  by (simp add: family_ids_fresh_def example_db_def example_family_def example_chore_def
      example_errand_def)

lemma ex_task_rows:
  "length (tasks example_db) = 4"
  "tasks example_db ! 0 = example_task 1 1 1 ''pending'' 14 100"
  "tasks example_db ! 1 = example_task 2 1 3 ''completed'' 14 200"
  "list_ex (\<lambda>t. t_id t = 1 \<and> t_user_id t = 1) (tasks example_db)"
  "list_ex (\<lambda>t. t_id t = 2 \<and> t_user_id t = 1) (tasks example_db)"
  "\<not> list_ex (\<lambda>t. t_id t = 9 \<and> t_user_id t = 1) (tasks example_db)"
  by (simp_all add: example_db_def example_task_def)

lemma ex_family_task_rows_list:
  "length (family_tasks example_db) = 2"
  "family_tasks example_db ! 0 = example_chore"
  by (simp_all add: example_db_def)

lemma ex_bodies:
  "b_status example_done_body = Some ''completed''"
  "b_status example_reopen_body = Some ''pending''"
  "fb_status example_done_family_body = Some ''completed''"
  by (simp_all add: example_done_body_def example_reopen_body_def example_done_family_body_def)

lemma ex_assignee: "task_in_requesters_family example_db 1 2" "is_assignee example_db 1 2"
  by (simp_all add: task_in_requesters_family_def is_assignee_def is_member_def example_db_def
      example_family_def example_chore_def example_errand_def)

theorem completed_at_iff_completed_witness:
  "t_completed_at (fst (post_task 900 1209600000 1 example_done_body example_db)) = Some 900
   \<and> t_completed_at (fst (post_task 950 1209600000 1 example_reopen_body example_db)) = None
   \<and> fst (put_task 900 1 1 example_done_body example_db) =
       Inr (Some (put_task_row 900 example_done_body (example_task 1 1 1 ''pending'' 14 100)))
   \<and> t_completed_at (tasks (snd (put_task 900 1 1 example_done_body example_db)) ! 0) = Some 900
   \<and> tasks (snd (put_task 900 1 1 example_done_body example_db)) ! 1 = tasks example_db ! 1
   \<and> t_completed_at (tasks (snd (put_task 950 1 2 example_reopen_body example_db)) ! 1) = None
   \<and> put_task 900 1 9 example_done_body example_db =
       (Inl (Reject 404 ''Task not found''), example_db)
   \<and> ft_completed_at
        (family_tasks (snd (put_family_task 900 2 1 example_done_family_body example_db)) ! 0) =
       Some 900
   \<and> ft_status
        (family_tasks (snd (put_family_task 900 2 1 example_done_family_body example_db)) ! 0) =
       Some ''completed''
   \<and> snd (put_family_task 900 3 1 example_done_family_body example_db) = example_db
   \<and> ft_completed_at (put_family_task_row 900 example_done_family_body example_chore) =
       Some 900"
proof -
  note A = completed_at_iff_completed [where now = 900 and weekStart = 1209600000 and uid = 1
      and b = example_done_body and d = example_db and tid = 1]
  note B = completed_at_iff_completed [where now = 950 and weekStart = 1209600000 and uid = 1
      and b = example_reopen_body and d = example_db and tid = 2]
  note C = completed_at_iff_completed [where now = 900 and uid = 1
      and b = example_done_body and d = example_db and tid = 9]
  note D = completed_at_iff_completed [where now = 900 and uid = 2 and d = example_db
      and fid = 1 and fb = example_done_family_body]
  note E = completed_at_iff_completed [where now = 900 and uid = 3 and d = example_db
      and fid = 1 and fb = example_done_family_body and e = "Reject 404 ''Task not found''"]
  have c1: "t_completed_at (fst (post_task 900 1209600000 1 example_done_body example_db)) =
      Some 900"
    using A [THEN conjunct1] ex_bodies(1) by simp
  have c2: "t_completed_at (fst (post_task 950 1209600000 1 example_reopen_body example_db)) =
      None"
    using B [THEN conjunct2, THEN conjunct1] ex_bodies(2) by simp
  note A4 = A [THEN conjunct2, THEN conjunct2, THEN conjunct2, THEN conjunct1, THEN mp,
      OF ex_task_rows(4), THEN conjunct2, THEN conjunct2, rule_format]
  note B4 = B [THEN conjunct2, THEN conjunct2, THEN conjunct2, THEN conjunct1, THEN mp,
      OF ex_task_rows(5), THEN conjunct2, THEN conjunct2, rule_format]
  have c4: "t_completed_at (tasks (snd (put_task 900 1 1 example_done_body example_db)) ! 0) =
      Some 900"
    using A4 [of 0] ex_task_rows(1,2) ex_bodies(1) by (simp add: example_task_def)
  have c5: "tasks (snd (put_task 900 1 1 example_done_body example_db)) ! 1 =
      tasks example_db ! 1"
    using A4 [of 1] ex_task_rows(1,3) by (simp add: example_task_def)
  have c6: "t_completed_at (tasks (snd (put_task 950 1 2 example_reopen_body example_db)) ! 1) =
      None"
    using B4 [of 1] ex_task_rows(1,3) ex_bodies(2) by (simp add: example_task_def)
  have c7: "put_task 900 1 9 example_done_body example_db =
       (Inl (Reject 404 ''Task not found''), example_db)"
    using C [THEN conjunct2, THEN conjunct2, THEN conjunct2, THEN conjunct2, THEN conjunct1]
      ex_task_rows(6) by simp
  have h: "family_ids_fresh example_db \<and> task_in_requesters_family example_db 1 2
       \<and> (is_leader_of_task example_db 1 2 \<or> is_assignee example_db 1 2)"
    using ex_family_ids_fresh ex_assignee by simp
  note D6 = D [THEN conjunct2, THEN conjunct2, THEN conjunct2, THEN conjunct2, THEN conjunct2,
      THEN conjunct1, THEN mp, OF h, THEN conjunct2, THEN conjunct2, rule_format]
  have c8: "ft_completed_at
        (family_tasks (snd (put_family_task 900 2 1 example_done_family_body example_db)) ! 0) =
       Some 900
   \<and> ft_status
        (family_tasks (snd (put_family_task 900 2 1 example_done_family_body example_db)) ! 0) =
       Some ''completed''"
    using D6 [of 0] ex_family_task_rows_list ex_bodies(3) by (simp add: example_chore_def)
  have "fst (put_family_task 900 3 1 example_done_family_body example_db) =
      Inl (Reject 404 ''Task not found'')"
    unfolding put_family_task_not_found [OF ex_roles(1)] by simp
  then have c9: "snd (put_family_task 900 3 1 example_done_family_body example_db) = example_db"
    using E [THEN conjunct2, THEN conjunct2, THEN conjunct2, THEN conjunct2, THEN conjunct2,
      THEN conjunct2, THEN conjunct2, THEN conjunct1] by simp
  obtain fr where fr: "fst (put_family_task 900 2 1 example_done_family_body example_db) = Inr fr"
    using ex_put_family_task_ok by blast
  have "put_family_task_row 900 example_done_family_body example_chore
      \<in> set (family_tasks (snd (put_family_task 900 2 1 example_done_family_body example_db)))"
    unfolding ex_put_family_task by simp
  moreover have "ft_id (put_family_task_row 900 example_done_family_body example_chore) = 1"
    by (simp add: put_family_task_row_fields example_chore_def)
  ultimately
  have c10: "ft_completed_at (put_family_task_row 900 example_done_family_body example_chore) =
      Some 900"
    using D [where fr = fr, THEN conjunct2, THEN conjunct2, THEN conjunct2, THEN conjunct2,
      THEN conjunct2, THEN conjunct2, THEN conjunct1, THEN mp, OF fr] ex_bodies(3)
    by auto
  from c1 c2 ex_put_task c4 c5 c6 c7 c8 c9 c10 show ?thesis by (intro conjI) simp_all
qed

subsection \<open>Joining a family\<close>

lemma trim_Nil: "trim [] = []"
  by (simp add: trim_def)

lemma ascii_upper_char_cases:
  "ascii_upper_char c = c \<or> (is_ascii c \<and> is_ascii (ascii_upper_char c))"
proof (cases "map_of (zip ''abcdefghijklmnopqrstuvwxyz'' ''ABCDEFGHIJKLMNOPQRSTUVWXYZ'') c")
  case None
  then show ?thesis by (simp add: ascii_upper_char_def)
next
  case (Some u)
  then have "(c, u) \<in> set (zip ''abcdefghijklmnopqrstuvwxyz'' ''ABCDEFGHIJKLMNOPQRSTUVWXYZ'')"
    by (rule map_of_SomeD)
  then have "is_ascii c \<and> is_ascii u"
    by (auto simp: is_ascii_def)
  with Some show ?thesis by (simp add: ascii_upper_char_def)
qed

lemma ascii_upper_char_ascii:
  assumes "ascii_upper_char x = ascii_upper_char y" and "is_ascii y"
  shows "is_ascii x"
proof -
  from assms(2) ascii_upper_char_cases [of y] have "is_ascii (ascii_upper_char y)" by auto
  with assms(1) have "is_ascii (ascii_upper_char x)" by simp
  with ascii_upper_char_cases [of x] show ?thesis by auto
qed

lemma same_up_to_case_ascii:
  "same_up_to_case a b \<Longrightarrow> list_all is_ascii b \<Longrightarrow> list_all is_ascii a"
  unfolding same_up_to_case_def
  by (induction a b rule: list_all2_induct) (auto dest: ascii_upper_char_ascii)

lemma same_up_to_case_upper:
  "same_up_to_case a b \<Longrightarrow> ascii_upper a = ascii_upper b"
  unfolding same_up_to_case_def ascii_upper_def
  by (induction a b rule: list_all2_induct) simp_all

lemma same_up_to_case_length: "same_up_to_case a b \<Longrightarrow> length a = length b"
  unfolding same_up_to_case_def by (rule list_all2_lengthD)

lemma join_blank:
  "jc = None \<or> (\<exists>c. jc = Some c \<and> trim c = []) \<Longrightarrow>
   post_family_join up uid jc d = (Inl (Reject 400 ''Invitation code is required''), d)"
  by (auto simp: post_family_join_def)

lemma join_unknown_code:
  assumes "filter (\<lambda>m. m_user_id m = uid) (family_members d) = []" and "trim c \<noteq> []"
    and "\<forall>f \<in> set (families d). f_invitation_code f \<noteq> up (trim c)"
  shows "post_family_join up uid (Some c) d = (Inl (Raise ''Invalid invitation code''), d)"
proof -
  from assms(2) have "c \<noteq> []" using trim_Nil by auto
  moreover from assms(3)
  have "filter (\<lambda>f. f_invitation_code f = up (trim c)) (families d) = []"
    by (simp add: filter_empty_conv)
  ultimately show ?thesis using assms(1,2)
    by (simp add: post_family_join_def withTransaction_def join_family_tx_def)
qed

lemma join_known_code:
  assumes "filter (\<lambda>m. m_user_id m = uid) (family_members d) = []" and "trim c \<noteq> []"
    and "f \<in> set (families d)" and "f_invitation_code f = up (trim c)"
  shows "\<exists>f' \<in> set (families d). f_invitation_code f' = f_invitation_code f
           \<and> post_family_join up uid (Some c) d =
               (Inr f',
                d\<lparr> family_members :=
                     family_members d @
                       [\<lparr> m_id = member_seq d, m_family_id = f_id f', m_user_id = uid \<rparr>],
                   member_seq := Suc (member_seq d) \<rparr>)"
proof -
  from assms(2) have c: "c \<noteq> []" using trim_Nil by auto
  from assms(3,4)
  have "filter (\<lambda>f. f_invitation_code f = up (trim c)) (families d) \<noteq> []"
    by (auto simp: filter_empty_conv)
  then obtain f' rest
    where l: "filter (\<lambda>f. f_invitation_code f = up (trim c)) (families d) = f' # rest"
    by (cases "filter (\<lambda>f. f_invitation_code f = up (trim c)) (families d)") auto
  then have "f' \<in> set (filter (\<lambda>f. f_invitation_code f = up (trim c)) (families d))"
    by simp
  then have "f' \<in> set (families d)" "f_invitation_code f' = f_invitation_code f"
    using assms(4) by auto
  moreover have "post_family_join up uid (Some c) d = (Inr f', insert_member (f_id f') uid d)"
    using assms(1,2) c l
    by (simp add: post_family_join_def withTransaction_def join_family_tx_def)
  then have "post_family_join up uid (Some c) d =
               (Inr f',
                d\<lparr> family_members :=
                     family_members d @
                       [\<lparr> m_id = member_seq d, m_family_id = f_id f', m_user_id = uid \<rparr>],
                   member_seq := Suc (member_seq d) \<rparr>)"
    by (simp add: insert_member_def)
  ultimately show ?thesis by blast
qed

lemma join_any_case:
  assumes "upper_on_ascii up"
    and "filter (\<lambda>m. m_user_id m = uid) (family_members d) = []"
    and "f \<in> set (families d)" and "f_invitation_code f \<noteq> []"
    and "list_all is_ascii (f_invitation_code f)"
    and "ascii_upper (f_invitation_code f) = f_invitation_code f"
    and "same_up_to_case (trim c) (f_invitation_code f)"
  shows "\<exists>f' \<in> set (families d). f_invitation_code f' = f_invitation_code f
           \<and> post_family_join up uid (Some c) d =
               (Inr f',
                d\<lparr> family_members :=
                     family_members d @
                       [\<lparr> m_id = member_seq d, m_family_id = f_id f', m_user_id = uid \<rparr>],
                   member_seq := Suc (member_seq d) \<rparr>)"
proof -
  from assms(5,7) have "list_all is_ascii (trim c)" by (simp add: same_up_to_case_ascii)
  with assms(1) have "up (trim c) = ascii_upper (trim c)" by (simp add: upper_on_ascii_def)
  with assms(6,7) have code: "f_invitation_code f = up (trim c)"
    using same_up_to_case_upper [of "trim c" "f_invitation_code f"] by simp
  from assms(4,7) have nonblank: "trim c \<noteq> []"
    using same_up_to_case_length [of "trim c" "f_invitation_code f"] by auto
  show ?thesis
    by (rule join_known_code [where up = up and uid = uid and d = d and c = c and f = f,
          OF assms(2) nonblank assms(3) code])
qed

text \<open>
  Claim C9. A join request without an invitation code, or with one that is empty or
  that \<open>trim\<close> empties (any run of white space), is answered 400 "Invitation code is
  required". For a user who is in no family yet (the handler checks that first, see
  claim C1) and a code that is not blank: when the trimmed and upper-cased code is the
  code of no family, the request fails with the error "Invalid invitation code" and
  writes nothing; when it is the code of a family, the user joins a family with that
  code, and exactly one membership row, for this user, is appended. Matching is
  insensitive to case: whatever else \<open>toUpperCase\<close> does, on ASCII strings it raises
  the letters, so a code that agrees with a stored upper-case ASCII code up to the case
  of its letters and surrounding white space joins that code's family.
\<close>

theorem join_family_outcomes:
  "(jc = None \<or> (\<exists>c. jc = Some c \<and> trim c = []) \<longrightarrow>
      post_family_join up uid jc d = (Inl (Reject 400 ''Invitation code is required''), d))
   \<and> (filter (\<lambda>m. m_user_id m = uid) (family_members d) = [] \<and> trim c \<noteq> []
       \<and> (\<forall>f \<in> set (families d). f_invitation_code f \<noteq> up (trim c)) \<longrightarrow>
      post_family_join up uid (Some c) d = (Inl (Raise ''Invalid invitation code''), d))
   \<and> (filter (\<lambda>m. m_user_id m = uid) (family_members d) = [] \<and> trim c' \<noteq> []
       \<and> f \<in> set (families d) \<and> f_invitation_code f = up (trim c') \<longrightarrow>
      (\<exists>f' \<in> set (families d). f_invitation_code f' = f_invitation_code f
          \<and> post_family_join up uid (Some c') d =
              (Inr f',
               d\<lparr> family_members :=
                    family_members d @
                      [\<lparr> m_id = member_seq d, m_family_id = f_id f', m_user_id = uid \<rparr>],
                  member_seq := Suc (member_seq d) \<rparr>)))
   \<and> (upper_on_ascii up
       \<and> filter (\<lambda>m. m_user_id m = uid) (family_members d) = [] \<and> g \<in> set (families d)
       \<and> f_invitation_code g \<noteq> [] \<and> list_all is_ascii (f_invitation_code g)
       \<and> ascii_upper (f_invitation_code g) = f_invitation_code g
       \<and> same_up_to_case (trim c'') (f_invitation_code g) \<longrightarrow>
      (\<exists>f' \<in> set (families d). f_invitation_code f' = f_invitation_code g
          \<and> post_family_join up uid (Some c'') d =
              (Inr f',
               d\<lparr> family_members :=
                    family_members d @
                      [\<lparr> m_id = member_seq d, m_family_id = f_id f', m_user_id = uid \<rparr>],
                  member_seq := Suc (member_seq d) \<rparr>)))"
proof (rule conjI; (rule conjI)?; (rule conjI)?; rule impI)
  assume "jc = None \<or> (\<exists>c. jc = Some c \<and> trim c = [])"
  then show "post_family_join up uid jc d = (Inl (Reject 400 ''Invitation code is required''), d)"
    by (rule join_blank)
next
  assume "filter (\<lambda>m. m_user_id m = uid) (family_members d) = [] \<and> trim c \<noteq> []
       \<and> (\<forall>f \<in> set (families d). f_invitation_code f \<noteq> up (trim c))"
  then show "post_family_join up uid (Some c) d = (Inl (Raise ''Invalid invitation code''), d)"
    by (simp add: join_unknown_code)
next
  assume "filter (\<lambda>m. m_user_id m = uid) (family_members d) = [] \<and> trim c' \<noteq> []
       \<and> f \<in> set (families d) \<and> f_invitation_code f = up (trim c')"
  then show "\<exists>f' \<in> set (families d). f_invitation_code f' = f_invitation_code f
          \<and> post_family_join up uid (Some c') d =
              (Inr f',
               d\<lparr> family_members :=
                    family_members d @
                      [\<lparr> m_id = member_seq d, m_family_id = f_id f', m_user_id = uid \<rparr>],
                  member_seq := Suc (member_seq d) \<rparr>)"
    using join_known_code [where up = up and uid = uid and d = d and c = c' and f = f]
    by blast
next
  assume "upper_on_ascii up
       \<and> filter (\<lambda>m. m_user_id m = uid) (family_members d) = [] \<and> g \<in> set (families d)
       \<and> f_invitation_code g \<noteq> [] \<and> list_all is_ascii (f_invitation_code g)
       \<and> ascii_upper (f_invitation_code g) = f_invitation_code g
       \<and> same_up_to_case (trim c'') (f_invitation_code g)"
  then show "\<exists>f' \<in> set (families d). f_invitation_code f' = f_invitation_code g
          \<and> post_family_join up uid (Some c'') d =
              (Inr f',
               d\<lparr> family_members :=
                    family_members d @
                      [\<lparr> m_id = member_seq d, m_family_id = f_id f', m_user_id = uid \<rparr>],
                  member_seq := Suc (member_seq d) \<rparr>)"
    using join_any_case [of up uid d g c''] by blast
qed

lemma ex_carol_free: "filter (\<lambda>m. m_user_id m = 3) (family_members example_db) = []"
  by (simp add: example_db_def)

lemma ex_family_listed: "families example_db = [example_family]"
  by (simp add: example_db_def)

lemma ex_upper_on_ascii: "upper_on_ascii ascii_upper"
  by (simp add: upper_on_ascii_def)

lemma ex_codes:
  "trim example_blank_code = []"
  "trim ''nope42'' = ''nope42''"
  "trim ''abc123'' = ''abc123''"
  "trim example_padded_code = ''Abc123''"
  "ascii_upper ''nope42'' = ''NOPE42''"
  "ascii_upper ''Abc123'' = ''ABC123''"
  "ascii_upper ''ABC123'' = ''ABC123''"
  "list_all is_ascii ''ABC123''"
  "same_up_to_case ''abc123'' ''ABC123''"
  by (simp_all add: trim_def white_space_def ascii_upper_def ascii_upper_char_def
      same_up_to_case_def is_ascii_def example_blank_code_def example_padded_code_def)

theorem join_family_outcomes_witness:
  "post_family_join ascii_upper 3
       (Some example_blank_code) example_db =
     (Inl (Reject 400 ''Invitation code is required''), example_db)
   \<and> post_family_join ascii_upper 3 (Some ''nope42'') example_db =
     (Inl (Raise ''Invalid invitation code''), example_db)
   \<and> fst (post_family_join ascii_upper 3 (Some example_padded_code)
            example_db) = Inr example_family
   \<and> fst (post_family_join ascii_upper 3 (Some ''abc123'') example_db) = Inr example_family
   \<and> family_members (snd (post_family_join ascii_upper 3 (Some ''abc123'') example_db)) =
       family_members example_db @ [\<lparr> m_id = 3, m_family_id = 1, m_user_id = 3 \<rparr>]"
proof -
  note T = join_family_outcomes [where up = ascii_upper and uid = 3 and d = example_db
      and jc = "Some example_blank_code"
      and c = "''nope42''" and c' = example_padded_code
      and f = example_family and g = example_family and c'' = "''abc123''"]
  note T1 = T [THEN conjunct1, THEN mp]
  note T2 = T [THEN conjunct2, THEN conjunct1, THEN mp]
  note T3 = T [THEN conjunct2, THEN conjunct2, THEN conjunct1, THEN mp]
  note T4 = T [THEN conjunct2, THEN conjunct2, THEN conjunct2, THEN mp]
  have blank:
    "Some example_blank_code = None
     \<or> (\<exists>c. Some example_blank_code = Some c
            \<and> trim c = [])"
    by (simp add: ex_codes)
  have unknown: "filter (\<lambda>m. m_user_id m = 3) (family_members example_db) = []
       \<and> trim ''nope42'' \<noteq> []
       \<and> (\<forall>f \<in> set (families example_db).
             f_invitation_code f \<noteq> ascii_upper (trim ''nope42''))"
    by (simp add: ex_carol_free ex_codes ex_family_listed example_family_def)
  have known: "filter (\<lambda>m. m_user_id m = 3) (family_members example_db) = []
       \<and> trim example_padded_code \<noteq> []
       \<and> example_family \<in> set (families example_db)
       \<and> f_invitation_code example_family =
           ascii_upper (trim example_padded_code)"
    by (simp add: ex_carol_free ex_codes ex_family_listed example_family_def)
  have anycase: "upper_on_ascii ascii_upper
       \<and> filter (\<lambda>m. m_user_id m = 3) (family_members example_db) = []
       \<and> example_family \<in> set (families example_db)
       \<and> f_invitation_code example_family \<noteq> []
       \<and> list_all is_ascii (f_invitation_code example_family)
       \<and> ascii_upper (f_invitation_code example_family) = f_invitation_code example_family
       \<and> same_up_to_case (trim ''abc123'') (f_invitation_code example_family)"
    by (simp add: ex_upper_on_ascii ex_carol_free ex_codes ex_family_listed example_family_def
        is_ascii_def)
  have c1: "post_family_join ascii_upper 3
       (Some example_blank_code) example_db =
     (Inl (Reject 400 ''Invitation code is required''), example_db)"
    by (rule T1 [OF blank])
  have c2: "post_family_join ascii_upper 3 (Some ''nope42'') example_db =
     (Inl (Raise ''Invalid invitation code''), example_db)"
    by (rule T2 [OF unknown])
  from T3 [OF known] obtain f1 where "f1 \<in> set (families example_db)"
    and j1: "post_family_join ascii_upper 3 (Some example_padded_code)
               example_db =
              (Inr f1,
               example_db\<lparr> family_members :=
                    family_members example_db @
                      [\<lparr> m_id = member_seq example_db, m_family_id = f_id f1, m_user_id = 3 \<rparr>],
                  member_seq := Suc (member_seq example_db) \<rparr>)"
    by blast
  then have f1: "f1 = example_family" by (simp add: ex_family_listed)
  have c3: "fst (post_family_join ascii_upper 3 (Some example_padded_code)
            example_db) = Inr example_family"
    unfolding j1 f1 by simp
  from T4 [OF anycase] obtain f2 where "f2 \<in> set (families example_db)"
    and j2: "post_family_join ascii_upper 3 (Some ''abc123'') example_db =
              (Inr f2,
               example_db\<lparr> family_members :=
                    family_members example_db @
                      [\<lparr> m_id = member_seq example_db, m_family_id = f_id f2, m_user_id = 3 \<rparr>],
                  member_seq := Suc (member_seq example_db) \<rparr>)"
    by blast
  then have f2: "f2 = example_family" by (simp add: ex_family_listed)
  have c4: "fst (post_family_join ascii_upper 3 (Some ''abc123'') example_db) =
      Inr example_family"
    unfolding j2 f2 by simp
  have c5: "family_members (snd (post_family_join ascii_upper 3 (Some ''abc123'') example_db)) =
       family_members example_db @ [\<lparr> m_id = 3, m_family_id = 1, m_user_id = 3 \<rparr>]"
    unfolding j2 f2 by (simp add: example_db_def example_family_def)
  from c1 c2 c3 c4 c5 show ?thesis by blast
qed

subsection \<open>Failed logins\<close>

lemma login_unknown_email:
  "filter (\<lambda>u. u_email u = email) (users d) = [] \<Longrightarrow>
   post_login compare generateToken email password d =
     Inl (Reject 401 ''Invalid email or password'')"
  by (simp add: post_login_def)

lemma login_wrong_password:
  "filter (\<lambda>u. u_email u = email) (users d) = u # us \<Longrightarrow>
   \<not> compare password (u_password_hash u) \<Longrightarrow>
   post_login compare generateToken email password d =
     Inl (Reject 401 ''Invalid email or password'')"
  by (simp add: post_login_def)

lemma login_any_failure:
  "post_login compare generateToken email password d = Inl e \<Longrightarrow>
   e = Reject 401 ''Invalid email or password''"
  by (cases "filter (\<lambda>u. u_email u = email) (users d)")
     (auto simp: post_login_def split: if_splits)

text \<open>
  Claim C6. A login fails with status 401 and the message "Invalid email or password"
  when no user has the email, and with the same status and message when the password
  does not match the user's hash; the handler has no other failure reply, so the reply
  to a failed login is the same whatever the reason.
\<close>

theorem login_failure_uniform:
  "(filter (\<lambda>u. u_email u = email) (users d) = [] \<longrightarrow>
      post_login compare generateToken email password d =
        Inl (Reject 401 ''Invalid email or password''))
   \<and> (filter (\<lambda>u. u_email u = email) (users d) = u # us
       \<and> \<not> compare password (u_password_hash u) \<longrightarrow>
      post_login compare generateToken email password d =
        Inl (Reject 401 ''Invalid email or password''))
   \<and> (post_login compare generateToken email password d = Inl e \<longrightarrow>
      e = Reject 401 ''Invalid email or password'')"
  by (simp add: login_unknown_email login_wrong_password login_any_failure)

lemma ex_login_rows:
  "filter (\<lambda>u. u_email u = ''dave@example.org'') (users example_db) = []"
  "filter (\<lambda>u. u_email u = ''alice@example.org'') (users example_db) =
     \<lparr> u_id = 1, u_username = ''alice'', u_email = ''alice@example.org'',
       u_password_hash = ''hash-of-a'' \<rparr> # []"
  by (simp_all add: example_db_def)

theorem login_failure_uniform_witness:
  "post_login example_compare example_token ''dave@example.org'' ''secret'' example_db =
     Inl (Reject 401 ''Invalid email or password'')
   \<and> post_login example_compare example_token ''alice@example.org'' ''wrong'' example_db =
     Inl (Reject 401 ''Invalid email or password'')"
proof -
  have w: "\<not> example_compare ''wrong''
             (u_password_hash \<lparr> u_id = 1, u_username = ''alice'', u_email = ''alice@example.org'',
                                u_password_hash = ''hash-of-a'' \<rparr>)"
    by (simp add: example_compare_def)
  have c1: "post_login example_compare example_token ''dave@example.org'' ''secret'' example_db =
     Inl (Reject 401 ''Invalid email or password'')"
    using login_failure_uniform [where email = "''dave@example.org''" and d = example_db]
      ex_login_rows(1)
    by blast
  have c2: "post_login example_compare example_token ''alice@example.org'' ''wrong'' example_db =
     Inl (Reject 401 ''Invalid email or password'')"
    using login_failure_uniform [where email = "''alice@example.org''" and d = example_db
        and u = "\<lparr> u_id = 1, u_username = ''alice'', u_email = ''alice@example.org'',
                   u_password_hash = ''hash-of-a'' \<rparr>"
        and us = "[]" and compare = example_compare and password = "''wrong''"]
      ex_login_rows(2) w
    by blast
  have "Reject 401 ''Invalid email or password'' = Reject 401 ''Invalid email or password''"
    using login_failure_uniform [where email = "''alice@example.org''" and d = example_db
        and compare = example_compare and password = "''wrong''"
        and generateToken = example_token and e = "Reject 401 ''Invalid email or password''"]
      c2
    by blast
  with c1 c2 show ?thesis by blast
qed

subsection \<open>Dashboard statistics\<close>

lemma week_rows_filter:
  "filter (\<lambda>t. t_week_start t = w) (filter (\<lambda>t. t_user_id t = uid \<and> \<not> t_archived t) (tasks d))
     = week_rows d uid w"
  by (auto simp: week_rows_def intro: filter_cong)

lemma stats_weeks:
  "map fst (weeklyData (get_stats d uid)) =
     take 4 (rev (sort (remdups (map t_week_start
        (filter (\<lambda>t. t_user_id t = uid \<and> \<not> t_archived t) (tasks d))))))"
  by (simp add: get_stats_def Let_def comp_def)

lemma stats_weekly_data:
  "length (weeklyData (get_stats d uid)) \<le> 4
   \<and> distinct (map fst (weeklyData (get_stats d uid)))
   \<and> sorted (rev (map fst (weeklyData (get_stats d uid))))
   \<and> list_all (\<lambda>r. snd r = count_rows (week_rows d uid (fst r)) \<and> 0 < total_tasks (snd r))
       (weeklyData (get_stats d uid))"
proof (intro conjI)
  let ?mine = "filter (\<lambda>t. t_user_id t = uid \<and> \<not> t_archived t) (tasks d)"
  let ?weeks = "take 4 (rev (sort (remdups (map t_week_start ?mine))))"
  show "length (weeklyData (get_stats d uid)) \<le> 4"
    by (simp add: get_stats_def Let_def)
  show "distinct (map fst (weeklyData (get_stats d uid)))"
    unfolding stats_weeks by (simp add: distinct_take)
  have "sorted (drop (length (remdups (map t_week_start ?mine)) - 4)
                  (sort (remdups (map t_week_start ?mine))))"
    by (simp add: sorted_wrt_drop)
  then show "sorted (rev (map fst (weeklyData (get_stats d uid))))"
    unfolding stats_weeks by (simp add: rev_take)
  have "set ?weeks \<subseteq> set (map t_week_start ?mine)"
    using set_take_subset [of 4 "rev (sort (remdups (map t_week_start ?mine)))"] by simp
  then have "\<forall>w \<in> set ?weeks. filter (\<lambda>t. t_week_start t = w) ?mine \<noteq> []"
    by (auto simp: filter_empty_conv)
  then show "list_all (\<lambda>r. snd r = count_rows (week_rows d uid (fst r)) \<and> 0 < total_tasks (snd r))
       (weeklyData (get_stats d uid))"
    unfolding get_stats_def Let_def list_all_iff
    by (auto simp: week_rows_filter [symmetric] count_rows_def)
qed

lemma stats_current_week:
  "currentWeek (get_stats d uid) =
     count_rows (filter (\<lambda>t. t_user_id t = uid \<and> \<not> t_archived t) (tasks d))"
  by (simp add: get_stats_def Let_def)

text \<open>
  Claim C4. The claim restricts the current-week counts to the current week bucket.
  The handler's first statement has no condition on \<open>week_start\<close>: in the example
  store alice has two unarchived tasks in the bucket of day 14 and one in the bucket of
  day 0, and the counts reported as \<open>currentWeek\<close> are those of all three, whichever
  bucket is the current one. The weekly breakdown lists the two buckets, latest first.
\<close>

theorem stats_current_week_counts_other_weeks:
  "currentWeek (get_stats example_db 1) =
     \<lparr> total_tasks = 3, completed_tasks = 1, pending_tasks = 2 \<rparr>
   \<and> count_rows (week_rows example_db 1 14) =
     \<lparr> total_tasks = 2, completed_tasks = 1, pending_tasks = 1 \<rparr>
   \<and> weeklyData (get_stats example_db 1) =
     [(14, \<lparr> total_tasks = 2, completed_tasks = 1, pending_tasks = 1 \<rparr>),
      (0, \<lparr> total_tasks = 1, completed_tasks = 0, pending_tasks = 1 \<rparr>)]"
  by (simp add: get_stats_def count_rows_def week_rows_def example_db_def example_task_def Let_def)


end
